theory Spec2Isabelle
  imports Complex_Main "HOL-Library.Multiset"
begin

section \<open>Card and state model\<close>

text \<open>
  A card's id is the string \<^verbatim>\<open>card-<suit>-<rank>\<close> built by \<^verbatim>\<open>createDeck\<close>; it is
  represented by the pair it is printed from.  Suits are the numbers 0..3
  (hearts, diamonds, clubs, spades), ranks the numbers 1..13.

  Card objects are values here: a value in a pile stands for the object that lies there,
  and a card handed to a move function is the value of the object passed.  The program
  turns a card over in place (\<^verbatim>\<open>card.faceUp = ...\<close> when it draws, recycles or
  reveals); here that is an update of the pile position that holds the card.  The two
  agree as long as no card object lies at two pile positions; an object that does turns
  over at both, which the updates below do not show.  An object comes to lie twice only
  through a call that pushes a card it has not taken from its pile (a run of two cards
  "from the waste", which pops nothing, or a card that is not the one on top of the
  source).  Two positions holding one object show the same id, so a state in which every
  id occurs once (\<open>noCardTwice\<close> below) has no such object.  The statements that
  depend on a card being turned over are made for those states, and the play they
  follow (\<open>transferPlay\<close>) is shown to stay within them.

  Arrays are mutable as well.  The piles are seven plus four plus two arrays of their
  own; the array of cards handed to \<^verbatim>\<open>moveCardsToTableau\<close> or \<^verbatim>\<open>attemptMove\<close> is
  either an array of the caller's (\<open>OwnArray\<close>, as every call inside the engine passes:
  \<^verbatim>\<open>[card]\<close> or a \<^verbatim>\<open>slice\<close>) or one of the pile arrays itself, which then changes
  under the function's hands.
\<close>

type_synonym card_id = "nat \<times> int"

record Card =
  suit :: nat
  rank :: int
  faceUp :: bool
  cid :: card_id

record GameState =
  stock :: "Card list"
  waste :: "Card list"
  foundations :: "Card list list"
  tableau :: "Card list list"
  moveCount :: int
  score :: int

text \<open>
  Reading a JavaScript array out of range gives \<^verbatim>\<open>undefined\<close>, and the next property
  access on it throws a TypeError.  Every function below that can take this path returns
  an option, \<open>None\<close> standing for the thrown TypeError.
\<close>

definition nth_opt :: "'a list \<Rightarrow> nat \<Rightarrow> 'a option" where
  "nth_opt xs i = (if i < length xs then Some (xs ! i) else None)"

definition nth_int :: "'a list \<Rightarrow> int \<Rightarrow> 'a option" where
  "nth_int xs i = (if 0 \<le> i then nth_opt xs (nat i) else None)"

definition pop :: "'a list \<Rightarrow> ('a \<times> 'a list) option" where
  "pop xs = (if xs = [] then None else Some (last xs, butlast xs))"

text \<open>Pile locators: the strings \<^verbatim>\<open>waste\<close>, \<^verbatim>\<open>foundation-N\<close>, \<^verbatim>\<open>tableau-N\<close>; any other
  string is \<open>OtherLoc\<close>.  An index that does not parse reads the array out of range, as
  any index beyond the array does.\<close>

datatype Location = Waste | FoundationLoc nat | TableauLoc nat | OtherLoc

text \<open>The array passed as \<^verbatim>\<open>cards\<close>, and what it holds in a given state.  A pile that
  does not exist (\<^verbatim>\<open>tableau[9]\<close>) is \<^verbatim>\<open>undefined\<close>: \<open>None\<close>.\<close>

datatype CardsArray =
    OwnArray "Card list"
  | StockPile
  | WastePile
  | FoundationPile nat
  | TableauPile nat

fun arrayCards :: "GameState \<Rightarrow> CardsArray \<Rightarrow> Card list option" where
  "arrayCards g (OwnArray cs) = Some cs"
| "arrayCards g StockPile = Some (stock g)"
| "arrayCards g WastePile = Some (waste g)"
| "arrayCards g (FoundationPile k) = nth_opt (foundations g) k"
| "arrayCards g (TableauPile k) = nth_opt (tableau g) k"

datatype Notification =
    OnFirstMove
  | OnMove int int nat
  | OnWin int int
  | OnReset

datatype MoveType = TableauToFoundation | TableauToTableau | WasteToTableau

datatype HintFrom = FromTableau nat card_id | FromWaste card_id

datatype HintTo = ToFoundation int | ToTableau nat

record HintMove =
  htype :: MoveType
  hfrom :: HintFrom
  hto :: HintTo
  willFlip :: bool

section \<open>Undo manager\<close>

record UndoManager =
  history :: "GameState list"
  maxHistory :: nat

text \<open>Game states are values here, so the deep copy of \<^verbatim>\<open>cloneState\<close> is the state itself.\<close>

definition cloneState :: "GameState \<Rightarrow> GameState" where
  "cloneState snapshot = snapshot"

definition newUndoManager :: UndoManager where
  "newUndoManager = \<lparr>history = [], maxHistory = 500\<rparr>"

definition reset :: "UndoManager \<Rightarrow> UndoManager" where
  "reset um = um\<lparr>history := []\<rparr>"

definition setMaxHistory :: "nat \<Rightarrow> UndoManager \<Rightarrow> UndoManager" where
  "setMaxHistory limit um =
     (if 0 < limit then
        (let um1 = um\<lparr>maxHistory := limit\<rparr> in
         if length (history um1) > maxHistory um1
         then um1\<lparr>history := drop (length (history um1) - maxHistory um1) (history um1)\<rparr>
         else um1)
      else um)"

definition pushSnapshot :: "GameState \<Rightarrow> UndoManager \<Rightarrow> UndoManager" where
  "pushSnapshot snapshot um =
     (let cloned = cloneState snapshot;
          h = history um @ [cloned]
      in if length h > maxHistory um
         then um\<lparr>history := drop (length h - maxHistory um) h\<rparr>
         else um\<lparr>history := h\<rparr>)"

definition canUndo :: "UndoManager \<Rightarrow> bool" where
  "canUndo um = (length (history um) > 0)"

definition undo :: "UndoManager \<Rightarrow> GameState option \<times> UndoManager" where
  "undo um =
     (if \<not> canUndo um then (None, um)
      else (Some (last (history um)), um\<lparr>history := butlast (history um)\<rparr>))"

section \<open>The engine\<close>

text \<open>
  The mounted engine instance: its game state, the shared undo manager when the page
  provides one (\<^verbatim>\<open>getUndoManager\<close> returns null otherwise), the animation flags and
  settings, the drag in progress, and the notifications sent to the shell callbacks so
  far.  Timestamps and the DOM are left out.
\<close>

record Engine =
  gameState :: GameState
  undoManager :: "UndoManager option"
  firstMoveDone :: bool
  currentHint :: "HintMove option"
  isMoveAnimating :: bool
  isFlipAnimating :: bool
  revealedCardIds :: "card_id set"
  animationsEnabled :: bool
  animationBaseMs :: nat
  dragData :: "(Location \<times> Card list) option"
  notifications :: "Notification list"

definition isAnimating :: "Engine \<Rightarrow> bool" where
  "isAnimating e = (isMoveAnimating e \<or> isFlipAnimating e)"

definition moveDurationMs :: "Engine \<Rightarrow> real" where
  "moveDurationMs e = 2 * real (animationBaseMs e)"

definition flipTotalMs :: "Engine \<Rightarrow> real" where
  "flipTotalMs e = 2.5 * real (animationBaseMs e)"

definition stockDelayMs :: "Engine \<Rightarrow> real" where
  "stockDelayMs e = 1 * real (animationBaseMs e)"

definition captureUndoSnapshot :: "Engine \<Rightarrow> Engine" where
  "captureUndoSnapshot e =
     (case undoManager e of
        None \<Rightarrow> e
      | Some um \<Rightarrow> e\<lparr>undoManager := Some (pushSnapshot (gameState e) um)\<rparr>)"

definition emptyGameState :: GameState where
  "emptyGameState =
     \<lparr>stock = [], waste = [], foundations = [[], [], [], []],
      tableau = [[], [], [], [], [], [], []], moveCount = 0, score = 0\<rparr>"

subsection \<open>Deck, shuffle and deal\<close>

definition createDeck :: "Card list" where
  "createDeck =
     concat (map (\<lambda>s. map (\<lambda>r. \<lparr>suit = s, rank = r, faceUp = False, cid = (s, r)\<rparr>) [1..13])
                 [0..<4])"

text \<open>
  Fisher-Yates, from the last index down to 1.  \<open>rnd i\<close> stands for the random draw of the
  step at index \<open>i\<close>; \<^verbatim>\<open>Math.floor(Math.random() * (i + 1))\<close> lies in \<open>0..i\<close>, which the
  remainder enforces here.
\<close>

fun shuffleFrom :: "(nat \<Rightarrow> nat) \<Rightarrow> nat \<Rightarrow> Card list \<Rightarrow> Card list" where
  "shuffleFrom rnd 0 deck = deck"
| "shuffleFrom rnd (Suc i) deck =
     (let j = rnd (Suc i) mod (Suc i + 1)
      in shuffleFrom rnd i (deck[Suc i := deck ! j, j := deck ! Suc i]))"

definition shuffleDeck :: "(nat \<Rightarrow> nat) \<Rightarrow> Card list \<Rightarrow> Card list" where
  "shuffleDeck rnd deck = shuffleFrom rnd (length deck - 1) deck"

text \<open>
  The inner loop of \<^verbatim>\<open>dealTableau\<close>: \<open>n\<close> rows are still to be dealt into the column, and
  the row with \<open>row = col\<close> is the last one.  Popping an empty deck yields
  \<^verbatim>\<open>undefined\<close>; the deal is then outside the model (\<open>None\<close>).
\<close>

fun dealRows :: "nat \<Rightarrow> Card list \<Rightarrow> Card list \<Rightarrow> (Card list \<times> Card list) option" where
  "dealRows 0 deck column = Some (deck, column)"
| "dealRows (Suc n) deck column =
     (case pop deck of
        None \<Rightarrow> None
      | Some (c, deck') \<Rightarrow>
          dealRows n deck' (column @ [if n = 0 then c\<lparr>faceUp := True\<rparr> else c]))"

fun dealCols :: "nat list \<Rightarrow> Card list \<Rightarrow> Card list list \<Rightarrow> (Card list \<times> Card list list) option" where
  "dealCols [] deck tab = Some (deck, tab)"
| "dealCols (col # cols) deck tab =
     (case nth_opt tab col of
        None \<Rightarrow> None
      | Some column \<Rightarrow>
          (case dealRows (Suc col) deck column of
             None \<Rightarrow> None
           | Some (deck', column') \<Rightarrow> dealCols cols deck' (tab[col := column'])))"

definition dealTableau :: "Card list \<Rightarrow> GameState \<Rightarrow> (Card list \<times> GameState) option" where
  "dealTableau deck g =
     (case dealCols [0..<7] deck (tableau g) of
        None \<Rightarrow> None
      | Some (deck', tab) \<Rightarrow> Some (deck', g\<lparr>tableau := tab\<rparr>))"

definition startNewDeal :: "(nat \<Rightarrow> nat) \<Rightarrow> Engine \<Rightarrow> Engine option" where
  "startNewDeal rnd e =
     (let e1 = e\<lparr>undoManager := map_option reset (undoManager e),
                 currentHint := None,
                 revealedCardIds := {},
                 gameState := emptyGameState,
                 firstMoveDone := False\<rparr>;
          deck = shuffleDeck rnd createDeck
      in case dealTableau deck (gameState e1) of
           None \<Rightarrow> None
         | Some (deck', g) \<Rightarrow>
             Some (e1\<lparr>gameState := g\<lparr>stock := deck'\<rparr>,
                      notifications := notifications e1 @ [OnReset]\<rparr>))"

subsection \<open>Move registration and win check\<close>

definition registerMove :: "Engine \<Rightarrow> Engine" where
  "registerMove e =
     (let e1 = e\<lparr>currentHint := None\<rparr>;
          e2 = (if \<not> firstMoveDone e1
                then e1\<lparr>firstMoveDone := True,
                        notifications := notifications e1 @ [OnFirstMove]\<rparr>
                else e1);
          g = (gameState e2)\<lparr>moveCount := moveCount (gameState e2) + 1\<rparr>
      in e2\<lparr>gameState := g,
             notifications := notifications e2 @ [OnMove (moveCount g) (score g) (length (stock g))]\<rparr>)"

definition checkWinCondition :: "Engine \<Rightarrow> Engine" where
  "checkWinCondition e =
     (let totalInFoundations = sum_list (map length (foundations (gameState e)))
      in if totalInFoundations = 52
         then e\<lparr>notifications :=
                  notifications e @ [OnWin (moveCount (gameState e)) (score (gameState e))]\<rparr>
         else e)"

subsection \<open>Stock and waste\<close>

text \<open>The draw loop of \<^verbatim>\<open>handleStockClick\<close>, \<open>n\<close> iterations left.\<close>

fun drawLoop :: "nat \<Rightarrow> GameState \<Rightarrow> GameState option" where
  "drawLoop 0 g = Some g"
| "drawLoop (Suc n) g =
     (case pop (stock g) of
        None \<Rightarrow> None
      | Some (c, rest) \<Rightarrow> drawLoop n (g\<lparr>stock := rest, waste := waste g @ [c\<lparr>faceUp := True\<rparr>]\<rparr>))"

text \<open>The recycle loop: while the waste is not empty, pop it onto the stock face-down.\<close>

function recycleLoop :: "GameState \<Rightarrow> GameState" where
  "recycleLoop g =
     (if length (waste g) > 0
      then recycleLoop (g\<lparr>waste := butlast (waste g),
                          stock := stock g @ [(last (waste g))\<lparr>faceUp := False\<rparr>]\<rparr>)
      else g)"
  by pat_completeness auto
termination
  by (relation "measure (\<lambda>g. length (waste g))") auto

declare recycleLoop.simps [simp del]

text \<open>\<^verbatim>\<open>handleStockClick\<close> of the engine; the boolean is its local \<^verbatim>\<open>moved\<close>.\<close>

definition handleStockClick :: "Engine \<Rightarrow> (bool \<times> Engine) option" where
  "handleStockClick e =
     (if length (stock (gameState e)) > 0 then
        (let e1 = captureUndoSnapshot e;
             drawCount = min 3 (length (stock (gameState e1)))
         in case drawLoop drawCount (gameState e1) of
              None \<Rightarrow> None
            | Some g \<Rightarrow> Some (True, registerMove (e1\<lparr>gameState := g\<rparr>)))
      else if length (waste (gameState e)) > 0 then
        (let e1 = captureUndoSnapshot e
         in Some (True, registerMove (e1\<lparr>gameState := recycleLoop (gameState e1)\<rparr>)))
      else Some (False, e))"

text \<open>
  The engine copy in \<^verbatim>\<open>src/unnamed/part_001\<close> has no undo integration, no hint and no
  \<^verbatim>\<open>moved\<close> flag: its \<^verbatim>\<open>registerMove\<close> and \<^verbatim>\<open>handleStockClick\<close> follow.
\<close>

definition registerMove_part001 :: "Engine \<Rightarrow> Engine" where
  "registerMove_part001 e =
     (let e2 = (if \<not> firstMoveDone e
                then e\<lparr>firstMoveDone := True,
                       notifications := notifications e @ [OnFirstMove]\<rparr>
                else e);
          g = (gameState e2)\<lparr>moveCount := moveCount (gameState e2) + 1\<rparr>
      in e2\<lparr>gameState := g,
             notifications := notifications e2 @ [OnMove (moveCount g) (score g) (length (stock g))]\<rparr>)"

definition handleStockClick_part001 :: "Engine \<Rightarrow> Engine option" where
  "handleStockClick_part001 e =
     (if length (stock (gameState e)) > 0 then
        (let drawCount = min 3 (length (stock (gameState e)))
         in case drawLoop drawCount (gameState e) of
              None \<Rightarrow> None
            | Some g \<Rightarrow> Some (registerMove_part001 (e\<lparr>gameState := g\<rparr>)))
      else if length (waste (gameState e)) > 0 then
        Some (registerMove_part001 (e\<lparr>gameState := recycleLoop (gameState e)\<rparr>))
      else Some (registerMove_part001 e))"

subsection \<open>Legality\<close>

definition canMoveToFoundation :: "GameState \<Rightarrow> Card \<Rightarrow> int option" where
  "canMoveToFoundation g c =
     (case nth_opt (foundations g) (suit c) of
        None \<Rightarrow> None
      | Some foundation \<Rightarrow>
          if length foundation = 0
          then Some (if rank c = 1 then int (suit c) else - 1)
          else (let topCard = last foundation
                in Some (if rank c = rank topCard + 1 then int (suit c) else - 1)))"

definition canMoveToTableau :: "GameState \<Rightarrow> Card list \<Rightarrow> nat \<Rightarrow> bool option" where
  "canMoveToTableau g cards colIndex =
     (if length cards = 0 then Some False
      else case nth_opt (tableau g) colIndex of
        None \<Rightarrow> None
      | Some column \<Rightarrow>
          (let bottomCard = hd cards
           in if length column = 0 then Some (rank bottomCard = 13)
              else (let topCard = last column
                    in if \<not> faceUp topCard then Some False
                       else (let topIsRed = (suit topCard = 0 \<or> suit topCard = 1);
                                 bottomIsRed = (suit bottomCard = 0 \<or> suit bottomCard = 1);
                                 isOppositeColor = (topIsRed \<noteq> bottomIsRed);
                                 isOneRankLower = (rank bottomCard = rank topCard - 1)
                             in Some (isOppositeColor \<and> isOneRankLower)))))"

subsection \<open>Executing moves\<close>

text \<open>
  The step shared by both move functions once cards have been taken off a tableau column:
  \<open>column\<close> is what is left of the column.  When it is not empty and its new top card is
  face-down, the card is turned face-up, remembered for the flip animation, and five
  points are scored.
\<close>

definition revealTop :: "nat \<Rightarrow> Card list \<Rightarrow> Engine \<Rightarrow> Engine" where
  "revealTop colIndex column e =
     (let g = gameState e
      in if length column > 0 \<and> \<not> faceUp (last column)
         then (let revealedCard = (last column)\<lparr>faceUp := True\<rparr>
               in e\<lparr>gameState := g\<lparr>tableau := (tableau g)[colIndex := butlast column @ [revealedCard]],
                                     score := score g + 5\<rparr>,
                      revealedCardIds := insert (cid revealedCard) (revealedCardIds e)\<rparr>)
         else e\<lparr>gameState := g\<lparr>tableau := (tableau g)[colIndex := column]\<rparr>\<rparr>)"

text \<open>The block "Remove cards from source" of \<^verbatim>\<open>moveCardsToTableau\<close>;
  \<open>cardsLength\<close> is \<^verbatim>\<open>cards.length\<close>, read before anything is removed.
  \<^verbatim>\<open>splice(-n, n)\<close> removes the last \<open>n\<close> entries, all of them when the column is
  shorter.\<close>

definition removeRunFromSource :: "Location \<Rightarrow> nat \<Rightarrow> Engine \<Rightarrow> Engine option" where
  "removeRunFromSource fromLocation cardsLength e =
     (let g = gameState e in
      case fromLocation of
        Waste \<Rightarrow>
          if cardsLength = 1 \<and> length (waste g) > 0
          then Some (e\<lparr>gameState := g\<lparr>waste := butlast (waste g), score := score g + 5\<rparr>\<rparr>)
          else Some e
      | FoundationLoc foundationIndex \<Rightarrow>
          if cardsLength = 1 then
            (case nth_opt (foundations g) foundationIndex of
               None \<Rightarrow> None
             | Some foundation \<Rightarrow>
                 if length foundation > 0
                 then Some (e\<lparr>gameState :=
                               g\<lparr>foundations := (foundations g)[foundationIndex := butlast foundation],
                                 score := score g - 15\<rparr>\<rparr>)
                 else Some e)
          else Some e
      | TableauLoc fromColIndex \<Rightarrow>
          (case nth_opt (tableau g) fromColIndex of
             None \<Rightarrow> None
           | Some fromColumn \<Rightarrow>
               Some (revealTop fromColIndex
                       (take (length fromColumn - cardsLength) fromColumn) e))
      | OtherLoc \<Rightarrow> Some e)"

text \<open>
  \<^verbatim>\<open>moveCardsToTableau\<close>.  The legality check and the removal read the array \<^verbatim>\<open>cards\<close>
  as it is on entry (\<open>cardsOnEntry\<close>); \<^verbatim>\<open>push(...cards)\<close> reads it again after the
  removal (\<open>cardsNow\<close>).  The two differ when \<^verbatim>\<open>cards\<close> is the source pile itself, which
  \<^verbatim>\<open>pop\<close> or \<^verbatim>\<open>splice\<close> has shortened by then.  An undefined \<^verbatim>\<open>cards\<close> fails the
  check.
\<close>

definition moveCardsToTableau ::
    "Location \<Rightarrow> nat \<Rightarrow> CardsArray \<Rightarrow> Engine \<Rightarrow> (bool \<times> Engine) option" where
  "moveCardsToTableau fromLocation toColIndex cards e =
     (case arrayCards (gameState e) cards of
        None \<Rightarrow> Some (False, e)
      | Some cardsOnEntry \<Rightarrow>
          (case canMoveToTableau (gameState e) cardsOnEntry toColIndex of
             None \<Rightarrow> None
           | Some legal \<Rightarrow>
               if \<not> legal then Some (False, e)
               else
                 (case removeRunFromSource fromLocation (length cardsOnEntry)
                         (captureUndoSnapshot e) of
                    None \<Rightarrow> None
                  | Some e2 \<Rightarrow>
                      (case nth_opt (tableau (gameState e2)) toColIndex of
                         None \<Rightarrow> None
                       | Some dest \<Rightarrow>
                           (case arrayCards (gameState e2) cards of
                              None \<Rightarrow> None
                            | Some cardsNow \<Rightarrow>
                                Some (True,
                                  registerMove
                                    (e2\<lparr>gameState :=
                                         (gameState e2)\<lparr>tableau :=
                                           (tableau (gameState e2))
                                             [toColIndex := dest @ cardsNow]\<rparr>\<rparr>)))))))"

text \<open>The block "Remove card from source" of \<^verbatim>\<open>moveCardToFoundation\<close>.\<close>

definition removeCardFromSource :: "Location \<Rightarrow> Engine \<Rightarrow> Engine option" where
  "removeCardFromSource fromLocation e =
     (let g = gameState e in
      case fromLocation of
        Waste \<Rightarrow>
          if length (waste g) > 0
          then Some (e\<lparr>gameState := g\<lparr>waste := butlast (waste g)\<rparr>\<rparr>)
          else Some e
      | TableauLoc colIndex \<Rightarrow>
          (case nth_opt (tableau g) colIndex of
             None \<Rightarrow> None
           | Some column \<Rightarrow>
               if length column > 0
               then Some (revealTop colIndex (butlast column) e)
               else Some e)
      | FoundationLoc k \<Rightarrow> Some e
      | OtherLoc \<Rightarrow> Some e)"

definition moveCardToFoundation ::
    "Location \<Rightarrow> int \<Rightarrow> Card \<Rightarrow> Engine \<Rightarrow> (bool \<times> Engine) option" where
  "moveCardToFoundation fromLocation foundationIndex c e =
     (case canMoveToFoundation (gameState e) c of
        None \<Rightarrow> None
      | Some canMove \<Rightarrow>
          if canMove \<noteq> foundationIndex then Some (False, e)
          else
            (case removeCardFromSource fromLocation (captureUndoSnapshot e) of
               None \<Rightarrow> None
             | Some e2 \<Rightarrow>
                 (case nth_int (foundations (gameState e2)) foundationIndex of
                    None \<Rightarrow> None
                  | Some foundation \<Rightarrow>
                      Some (True,
                        checkWinCondition (registerMove
                          (e2\<lparr>gameState :=
                               (gameState e2)\<lparr>foundations :=
                                  (foundations (gameState e2))[nat foundationIndex := foundation @ [c]],
                                 score := score (gameState e2) + 10\<rparr>\<rparr>))))))"

subsection \<open>Animation flags\<close>

text \<open>
  \<^verbatim>\<open>animateCardMovement\<close> up to the point where it starts the transition; \<open>elementsFound\<close>
  says whether both DOM elements exist.  The timer that ends the window is
  \<open>moveAnimationEnd\<close>.
\<close>

definition animateCardMovement :: "bool \<Rightarrow> Engine \<Rightarrow> Engine" where
  "animateCardMovement elementsFound e =
     (if \<not> elementsFound then e
      else if \<not> animationsEnabled e \<or> moveDurationMs e = 0 then e
      else e\<lparr>isMoveAnimating := True\<rparr>)"

definition moveAnimationEnd :: "Engine \<Rightarrow> Engine" where
  "moveAnimationEnd e = e\<lparr>isMoveAnimating := False\<rparr>"

text \<open>
  \<^verbatim>\<open>animateRevealedCards\<close>: \<open>elementFound\<close> says which revealed cards have a DOM element.
  A card without one decrements the pending count at once, so the flag stays set only
  when some element was found.
\<close>

definition animateRevealedCards :: "(card_id \<Rightarrow> bool) \<Rightarrow> Engine \<Rightarrow> Engine" where
  "animateRevealedCards elementFound e =
     (if revealedCardIds e = {} then e
      else if \<not> animationsEnabled e \<or> flipTotalMs e = 0 then e
      else e\<lparr>isFlipAnimating := (\<exists>i \<in> revealedCardIds e. elementFound i)\<rparr>)"

subsection \<open>Foundation back to tableau, undo\<close>

fun foundationToTableauLoop ::
    "nat list \<Rightarrow> nat \<Rightarrow> Card list \<Rightarrow> bool \<Rightarrow> Engine \<Rightarrow> (bool \<times> Engine) option" where
  "foundationToTableauLoop [] foundationIndex foundation elementsFound e = Some (False, e)"
| "foundationToTableauLoop (col # cols) foundationIndex foundation elementsFound e =
     (let c = last foundation in
      case canMoveToTableau (gameState e) [c] col of
        None \<Rightarrow> None
      | Some legal \<Rightarrow>
          if \<not> legal
          then foundationToTableauLoop cols foundationIndex foundation elementsFound e
          else
            (let e1 = captureUndoSnapshot e; g = gameState e1
             in case nth_opt (tableau g) col of
                  None \<Rightarrow> None
                | Some column \<Rightarrow>
                    Some (True,
                      animateCardMovement elementsFound
                        (registerMove
                          (e1\<lparr>gameState :=
                               g\<lparr>foundations := (foundations g)[foundationIndex := butlast foundation],
                                 tableau := (tableau g)[col := column @ [c]],
                                 score := score g - 15\<rparr>\<rparr>)))))"

definition tryMoveFoundationToTableau :: "nat \<Rightarrow> bool \<Rightarrow> Engine \<Rightarrow> (bool \<times> Engine) option" where
  "tryMoveFoundationToTableau foundationIndex elementsFound e =
     (case nth_opt (foundations (gameState e)) foundationIndex of
        None \<Rightarrow> None
      | Some foundation \<Rightarrow>
          if length foundation = 0 then Some (False, e)
          else foundationToTableauLoop [0..<7] foundationIndex foundation elementsFound e)"

definition undoLastMove :: "Engine \<Rightarrow> bool \<times> Engine" where
  "undoLastMove e =
     (case undoManager e of
        None \<Rightarrow> (False, e)
      | Some um \<Rightarrow>
          if \<not> canUndo um then (False, e)
          else
            (case undo um of
               (None, um') \<Rightarrow> (False, e\<lparr>undoManager := Some um'\<rparr>)
             | (Some previousState, um') \<Rightarrow>
                 (True,
                  e\<lparr>undoManager := Some um',
                    gameState := previousState,
                    currentHint := None,
                    notifications := notifications e @
                      [OnMove (moveCount previousState) (score previousState)
                         (length (stock previousState))]\<rparr>)))"

subsection \<open>Hint engine\<close>

definition willTableauMoveFlip :: "GameState \<Rightarrow> nat \<Rightarrow> nat \<Rightarrow> bool" where
  "willTableauMoveFlip g colIndex cnt =
     (case nth_opt (tableau g) colIndex of
        None \<Rightarrow> False
      | Some column \<Rightarrow>
          if length column \<le> cnt then False
          else \<not> faceUp (column ! (length column - 1 - cnt)))"

text \<open>
  The destination searches of the hint engine and of the click handlers: the first column
  of \<open>cols\<close>, other than those skipped, onto which \<open>cards\<close> may go.
\<close>

fun findTableauTarget ::
    "GameState \<Rightarrow> Card list \<Rightarrow> (nat \<Rightarrow> bool) \<Rightarrow> nat list \<Rightarrow> nat option option" where
  "findTableauTarget g cards skip [] = Some None"
| "findTableauTarget g cards skip (targetCol # cols) =
     (if skip targetCol then findTableauTarget g cards skip cols
      else case canMoveToTableau g cards targetCol of
             None \<Rightarrow> None
           | Some legal \<Rightarrow>
               if legal then Some (Some targetCol)
               else findTableauTarget g cards skip cols)"

text \<open>The first loop of \<^verbatim>\<open>computeHintMove\<close>, with the lists \<^verbatim>\<open>priority1\<close>,
  \<^verbatim>\<open>priority2\<close> and \<^verbatim>\<open>priority4\<close> as accumulators.\<close>

fun hintTableauLoop ::
    "GameState \<Rightarrow> nat list \<Rightarrow> HintMove list \<times> HintMove list \<times> HintMove list
       \<Rightarrow> (HintMove list \<times> HintMove list \<times> HintMove list) option" where
  "hintTableauLoop g [] acc = Some acc"
| "hintTableauLoop g (colIndex # rest) (priority1, priority2, priority4) =
     (case nth_opt (tableau g) colIndex of
        None \<Rightarrow> hintTableauLoop g rest (priority1, priority2, priority4)
      | Some column \<Rightarrow>
          if length column = 0 then hintTableauLoop g rest (priority1, priority2, priority4)
          else
            (let c = last column in
             if \<not> faceUp c then hintTableauLoop g rest (priority1, priority2, priority4)
             else
               (case canMoveToFoundation g c of
                  None \<Rightarrow> None
                | Some foundationIndex \<Rightarrow>
                    (let moveToFoundation =
                           \<lparr>htype = TableauToFoundation, hfrom = FromTableau colIndex (cid c),
                            hto = ToFoundation foundationIndex,
                            willFlip = willTableauMoveFlip g colIndex 1\<rparr>;
                         p1 = (if foundationIndex \<noteq> - 1 \<and> willFlip moveToFoundation
                               then priority1 @ [moveToFoundation] else priority1);
                         p2 = (if foundationIndex \<noteq> - 1 \<and> \<not> willFlip moveToFoundation
                               then priority2 @ [moveToFoundation] else priority2)
                     in case findTableauTarget g [c] (\<lambda>t. t = colIndex)
                               [0..<length (tableau g)] of
                          None \<Rightarrow> None
                        | Some None \<Rightarrow> hintTableauLoop g rest (p1, p2, priority4)
                        | Some (Some targetCol) \<Rightarrow>
                            (let moveToTableau =
                                   \<lparr>htype = TableauToTableau, hfrom = FromTableau colIndex (cid c),
                                    hto = ToTableau targetCol,
                                    willFlip = willTableauMoveFlip g colIndex 1\<rparr>
                             in if willFlip moveToTableau
                                then hintTableauLoop g rest (p1 @ [moveToTableau], p2, priority4)
                                else hintTableauLoop g rest (p1, p2, priority4 @ [moveToTableau]))))))"

text \<open>The second loop of \<^verbatim>\<open>computeHintMove\<close>: the list \<^verbatim>\<open>priority3\<close>.\<close>

definition hintWaste :: "GameState \<Rightarrow> HintMove list option" where
  "hintWaste g =
     (if length (waste g) > 0 then
        (let topWaste = last (waste g) in
         case findTableauTarget g [topWaste] (\<lambda>t. False) [0..<length (tableau g)] of
           None \<Rightarrow> None
         | Some None \<Rightarrow> Some []
         | Some (Some colIndex) \<Rightarrow>
             Some [\<lparr>htype = WasteToTableau, hfrom = FromWaste (cid topWaste),
                    hto = ToTableau colIndex, willFlip = False\<rparr>])
      else Some [])"

definition computeHintMove :: "GameState \<Rightarrow> HintMove option option" where
  "computeHintMove g =
     (case hintTableauLoop g [0..<length (tableau g)] ([], [], []) of
        None \<Rightarrow> None
      | Some (priority1, priority2, priority4) \<Rightarrow>
          (case hintWaste g of
             None \<Rightarrow> None
           | Some priority3 \<Rightarrow>
               Some (if length priority1 > 0 then Some (hd priority1)
                     else if length priority2 > 0 then Some (hd priority2)
                     else if length priority3 > 0 then Some (hd priority3)
                     else if length priority4 > 0 then Some (hd priority4)
                     else None)))"

definition requestHint :: "Engine \<Rightarrow> Engine option" where
  "requestHint e =
     (case computeHintMove (gameState e) of
        None \<Rightarrow> None
      | Some None \<Rightarrow> Some (e\<lparr>currentHint := None\<rparr>)
      | Some (Some move) \<Rightarrow> Some (e\<lparr>currentHint := Some move\<rparr>))"

section \<open>Interaction handlers\<close>

text \<open>
  The event handlers, without the DOM work (selection and highlight classes, rendering).
  A handler returns the engine it leaves, or \<open>None\<close> when it ends with a TypeError.
\<close>

definition stockClickHandler :: "Engine \<Rightarrow> Engine option" where
  "stockClickHandler e =
     (if isAnimating e then Some e
      else map_option snd (handleStockClick e))"

fun wasteToTableauLoop :: "nat list \<Rightarrow> Card \<Rightarrow> bool \<Rightarrow> Engine \<Rightarrow> Engine option" where
  "wasteToTableauLoop [] topCard elementsFound e = Some e"
| "wasteToTableauLoop (col # cols) topCard elementsFound e =
     (case canMoveToTableau (gameState e) [topCard] col of
        None \<Rightarrow> None
      | Some legal \<Rightarrow>
          if \<not> legal then wasteToTableauLoop cols topCard elementsFound e
          else
            (case moveCardsToTableau Waste col (OwnArray [topCard]) e of
               None \<Rightarrow> None
             | Some (movedToTableau, e') \<Rightarrow>
                 Some (if movedToTableau then animateCardMovement elementsFound e' else e')))"

definition handleWasteClick :: "bool \<Rightarrow> Engine \<Rightarrow> Engine option" where
  "handleWasteClick elementsFound e =
     (if length (waste (gameState e)) = 0 then Some e
      else
        (let topCard = last (waste (gameState e)) in
         case canMoveToFoundation (gameState e) topCard of
           None \<Rightarrow> None
         | Some foundationIndex \<Rightarrow>
             if foundationIndex \<noteq> - 1 then
               (case moveCardToFoundation Waste foundationIndex topCard e of
                  None \<Rightarrow> None
                | Some (movedToFoundation, e') \<Rightarrow>
                    Some (if movedToFoundation then animateCardMovement elementsFound e' else e'))
             else wasteToTableauLoop [0..<length (tableau (gameState e))] topCard elementsFound e))"

fun tableauToTableauLoop ::
    "nat list \<Rightarrow> nat \<Rightarrow> Card \<Rightarrow> bool \<Rightarrow> Engine \<Rightarrow> (bool \<times> Engine) option" where
  "tableauToTableauLoop [] colIndex c elementsFound e = Some (False, e)"
| "tableauToTableauLoop (targetCol # cols) colIndex c elementsFound e =
     (if targetCol = colIndex then tableauToTableauLoop cols colIndex c elementsFound e
      else case canMoveToTableau (gameState e) [c] targetCol of
        None \<Rightarrow> None
      | Some legal \<Rightarrow>
          if \<not> legal then tableauToTableauLoop cols colIndex c elementsFound e
          else
            (case moveCardsToTableau (TableauLoc colIndex) targetCol (OwnArray [c]) e of
               None \<Rightarrow> None
             | Some (movedToTableau, e') \<Rightarrow>
                 if movedToTableau then Some (True, animateCardMovement elementsFound e')
                 else tableauToTableauLoop cols colIndex c elementsFound e'))"

definition tryMoveTableauToFoundation :: "nat \<Rightarrow> bool \<Rightarrow> Engine \<Rightarrow> (bool \<times> Engine) option" where
  "tryMoveTableauToFoundation colIndex elementsFound e =
     (case nth_opt (tableau (gameState e)) colIndex of
        None \<Rightarrow> Some (False, e)
      | Some column \<Rightarrow>
          if length column = 0 then Some (False, e)
          else
            (let c = last column in
             if \<not> faceUp c then Some (False, e)
             else
               (case canMoveToFoundation (gameState e) c of
                  None \<Rightarrow> None
                | Some foundationIndex \<Rightarrow>
                    if foundationIndex \<noteq> - 1 then
                      (case moveCardToFoundation (TableauLoc colIndex) foundationIndex c e of
                         None \<Rightarrow> None
                       | Some (movedToFoundation, e') \<Rightarrow>
                           if movedToFoundation
                           then Some (True, animateCardMovement elementsFound e')
                           else tableauToTableauLoop [0..<length (tableau (gameState e'))]
                                  colIndex c elementsFound e')
                    else tableauToTableauLoop [0..<length (tableau (gameState e))]
                           colIndex c elementsFound e)))"

definition findIndex :: "('a \<Rightarrow> bool) \<Rightarrow> 'a list \<Rightarrow> nat option" where
  "findIndex P xs =
     (if list_ex P xs then Some (length (takeWhile (\<lambda>x. \<not> P x) xs)) else None)"

definition isCardDraggable :: "Location \<Rightarrow> card_id \<Rightarrow> GameState \<Rightarrow> bool option" where
  "isCardDraggable location cardId g =
     (case location of
        Waste \<Rightarrow> Some (length (waste g) > 0 \<and> cid (last (waste g)) = cardId)
      | FoundationLoc k \<Rightarrow> Some True
      | TableauLoc colIndex \<Rightarrow>
          (case nth_opt (tableau g) colIndex of
             None \<Rightarrow> None
           | Some column \<Rightarrow>
               (case findIndex (\<lambda>c. cid c = cardId) column of
                  None \<Rightarrow> Some False
                | Some cardIndex \<Rightarrow> Some (list_all faceUp (drop cardIndex column))))
      | OtherLoc \<Rightarrow> Some False)"

fun stackToTableauLoop ::
    "nat list \<Rightarrow> nat \<Rightarrow> Card list \<Rightarrow> bool \<Rightarrow> Engine \<Rightarrow> Engine option" where
  "stackToTableauLoop [] colIndex stack elementsFound e = Some e"
| "stackToTableauLoop (targetCol # cols) colIndex stack elementsFound e =
     (if targetCol = colIndex then stackToTableauLoop cols colIndex stack elementsFound e
      else case canMoveToTableau (gameState e) stack targetCol of
        None \<Rightarrow> None
      | Some legal \<Rightarrow>
          if \<not> legal then stackToTableauLoop cols colIndex stack elementsFound e
          else
            (case moveCardsToTableau (TableauLoc colIndex) targetCol (OwnArray stack) e of
               None \<Rightarrow> None
             | Some (moved, e') \<Rightarrow>
                 Some (if moved then animateCardMovement elementsFound e' else e')))"

text \<open>
  The click handler of a card element: \<open>location\<close> and \<open>cardId\<close> are its data attributes,
  \<open>isFaceUpClass\<close> says whether it carries the class \<^verbatim>\<open>is-face-up\<close>.
\<close>

definition clickHandler :: "Location \<Rightarrow> card_id \<Rightarrow> bool \<Rightarrow> bool \<Rightarrow> Engine \<Rightarrow> Engine option" where
  "clickHandler location cardId isFaceUpClass elementsFound e =
     (if isAnimating e then Some e
      else case location of
        Waste \<Rightarrow> handleWasteClick elementsFound e
      | TableauLoc colIndex \<Rightarrow>
          if \<not> isFaceUpClass then Some e
          else
            (case nth_opt (tableau (gameState e)) colIndex of
               None \<Rightarrow> Some e
             | Some column \<Rightarrow>
                 if length column = 0 then Some e
                 else
                   (case findIndex (\<lambda>c. cid c = cardId) column of
                      None \<Rightarrow> map_option snd (tryMoveTableauToFoundation colIndex elementsFound e)
                    | Some cardIndex \<Rightarrow>
                        if cardIndex = length column - 1
                        then map_option snd (tryMoveTableauToFoundation colIndex elementsFound e)
                        else
                          (case isCardDraggable location cardId (gameState e) of
                             None \<Rightarrow> None
                           | Some draggable \<Rightarrow>
                               if draggable
                               then stackToTableauLoop [0..<length (tableau (gameState e))]
                                      colIndex (drop cardIndex column) elementsFound e
                               else Some e)))
      | FoundationLoc k \<Rightarrow> Some e
      | OtherLoc \<Rightarrow> Some e)"

definition findCardById :: "card_id \<Rightarrow> GameState \<Rightarrow> Card option" where
  "findCardById cardId g =
     find (\<lambda>c. cid c = cardId) (waste g @ concat (foundations g) @ concat (tableau g))"

definition handleDragStart :: "Location \<Rightarrow> card_id \<Rightarrow> Engine \<Rightarrow> Engine option" where
  "handleDragStart location cardId e =
     (case location of
        TableauLoc colIndex \<Rightarrow>
          (case nth_opt (tableau (gameState e)) colIndex of
             None \<Rightarrow> None
           | Some column \<Rightarrow>
               (case findIndex (\<lambda>c. cid c = cardId) column of
                  None \<Rightarrow> Some (e\<lparr>dragData := Some (location, [])\<rparr>)
                | Some cardIndex \<Rightarrow> Some (e\<lparr>dragData := Some (location, drop cardIndex column)\<rparr>)))
      | _ \<Rightarrow>
          (case findCardById cardId (gameState e) of
             None \<Rightarrow> Some (e\<lparr>dragData := Some (location, [])\<rparr>)
           | Some c \<Rightarrow> Some (e\<lparr>dragData := Some (location, [c])\<rparr>)))"

definition dragStartHandler :: "Location \<Rightarrow> card_id \<Rightarrow> Engine \<Rightarrow> Engine option" where
  "dragStartHandler location cardId e =
     (if isAnimating e then Some e else handleDragStart location cardId e)"

definition attemptMove ::
    "Location \<Rightarrow> Location \<Rightarrow> CardsArray \<Rightarrow> Engine \<Rightarrow> (bool \<times> Engine) option" where
  "attemptMove fromLocation toLocation cards e =
     (case arrayCards (gameState e) cards of
        None \<Rightarrow> Some (False, e)
      | Some cardsOnEntry \<Rightarrow>
          if length cardsOnEntry = 0 then Some (False, e)
          else case toLocation of
            TableauLoc colIndex \<Rightarrow> moveCardsToTableau fromLocation colIndex cards e
          | FoundationLoc foundationIndex \<Rightarrow>
              moveCardToFoundation fromLocation (int foundationIndex) (hd cardsOnEntry) e
          | _ \<Rightarrow> Some (False, e))"

text \<open>
  \<^verbatim>\<open>handleDrop\<close>: after the move, \<^verbatim>\<open>cleanupDragVisuals\<close> sets \<^verbatim>\<open>dragData\<close> to null; on
  success the handler then reads \<^verbatim>\<open>this.dragData.element\<close>, which throws.
\<close>

definition handleDrop :: "Location \<Rightarrow> Engine \<Rightarrow> Engine option" where
  "handleDrop dropZoneId e =
     (case dragData e of
        None \<Rightarrow> Some e
      | Some (location, draggedCards) \<Rightarrow>
          (case attemptMove location dropZoneId (OwnArray draggedCards) e of
             None \<Rightarrow> None
           | Some (success, e') \<Rightarrow>
               if success then None else Some (e'\<lparr>dragData := None\<rparr>)))"

definition dropHandler :: "Location \<Rightarrow> Engine \<Rightarrow> Engine option" where
  "dropHandler dropZoneId e =
     (if isAnimating e then Some e else handleDrop dropZoneId e)"

section \<open>Properties of game states\<close>

definition faceDown :: "Card \<Rightarrow> Card" where
  "faceDown c = c\<lparr>faceUp := False\<rparr>"

definition allCards :: "GameState \<Rightarrow> Card list" where
  "allCards g = stock g @ waste g @ concat (foundations g) @ concat (tableau g)"

text \<open>The piles hold exactly the cards of one deck, whatever their orientation, and no
  card id occurs twice.\<close>

definition oneDeck :: "GameState \<Rightarrow> bool" where
  "oneDeck g =
     (mset (map faceDown (allCards g)) = mset createDeck \<and> distinct (map cid (allCards g)))"

text \<open>No card id occurs twice in the piles; in particular no card object lies at two
  pile positions.\<close>

definition noCardTwice :: "GameState \<Rightarrow> bool" where
  "noCardTwice g = distinct (map cid (allCards g))"

text \<open>
  The reveal check in the words of the specification: after removing \<open>n\<close> cards from
  the column, a card is left and the new top of the column is face-down.
\<close>

definition wouldReveal :: "GameState \<Rightarrow> nat \<Rightarrow> nat \<Rightarrow> bool" where
  "wouldReveal g col n =
     (col < length (tableau g) \<and>
      (let left = take (length (tableau g ! col) - n) (tableau g ! col)
       in left \<noteq> [] \<and> \<not> faceUp (last left)))"

text \<open>The cards of one dealt column: the last one popped is turned face-up.\<close>

definition flipLast :: "Card list \<Rightarrow> Card list" where
  "flipLast xs = (if xs = [] then [] else butlast xs @ [(last xs)\<lparr>faceUp := True\<rparr>])"

text \<open>
  The score delta of a move onto the tableau in the words of the specification: +5 when
  the source is the waste, -15 when it is a foundation, +5 when taking the run off a
  tableau column reveals a card.
\<close>

definition tableauMoveDelta :: "Location \<Rightarrow> Card list \<Rightarrow> GameState \<Rightarrow> int" where
  "tableauMoveDelta fromLocation cards g =
     (case fromLocation of
        Waste \<Rightarrow> 5
      | FoundationLoc k \<Rightarrow> - 15
      | TableauLoc k \<Rightarrow> if wouldReveal g k (length cards) then 5 else 0
      | OtherLoc \<Rightarrow> 0)"

text \<open>
  The tableau once the run has been taken off a source column and before it is appended
  to the destination: the source column without its last \<open>length cards\<close> cards, its
  new top card face-up.
\<close>

definition tableauAfterRemoval :: "Location \<Rightarrow> Card list \<Rightarrow> GameState \<Rightarrow> Card list list" where
  "tableauAfterRemoval fromLocation cards g =
     (case fromLocation of
        TableauLoc k \<Rightarrow>
          (tableau g)[k := flipLast (take (length (tableau g ! k) - length cards) (tableau g ! k))]
      | _ \<Rightarrow> tableau g)"

text \<open>Concrete values used to evaluate the engine: a card with its id, and the engine
  as the constructor and \<^verbatim>\<open>initializeGameState\<close> leave it.\<close>

definition mkCard :: "nat \<Rightarrow> int \<Rightarrow> bool \<Rightarrow> Card" where
  "mkCard s r up = \<lparr>suit = s, rank = r, faceUp = up, cid = (s, r)\<rparr>"

definition newEngine :: "UndoManager option \<Rightarrow> Engine" where
  "newEngine um =
     \<lparr>gameState = emptyGameState, undoManager = um, firstMoveDone = False,
      currentHint = None, isMoveAnimating = False, isFlipAnimating = False,
      revealedCardIds = {}, animationsEnabled = True, animationBaseMs = 80,
      dragData = None, notifications = []\<rparr>"

text \<open>A small position: the hearts ace is on its foundation, the waste holds the queen of
  hearts under the king of spades, column 0 is empty, column 1 holds a face-down five of
  clubs under the six of hearts, column 2 holds the seven of spades.\<close>

definition positionA :: GameState where
  "positionA =
     \<lparr>stock = [],
      waste = [mkCard 0 12 True, mkCard 3 13 True],
      foundations = [[mkCard 0 1 True], [], [], []],
      tableau = [[], [mkCard 2 5 False, mkCard 0 6 True], [mkCard 3 7 True], [], [], [], []],
      moveCount = 4,
      score = 10\<rparr>"

definition engineA :: Engine where
  "engineA = (newEngine (Some newUndoManager))\<lparr>gameState := positionA, firstMoveDone := True\<rparr>"

text \<open>A second small position: the waste holds the seven of diamonds, column 0 the eight
  of spades, column 1 the seven of hearts; no column has a face-down card.  In the third
  position column 2 holds the ace of clubs as well.\<close>

definition positionB :: GameState where
  "positionB =
     \<lparr>stock = [],
      waste = [mkCard 1 7 True],
      foundations = [[], [], [], []],
      tableau = [[mkCard 3 8 True], [mkCard 0 7 True], [], [], [], [], []],
      moveCount = 0,
      score = 0\<rparr>"

definition positionC :: GameState where
  "positionC = positionB\<lparr>tableau := (tableau positionB)[2 := [mkCard 2 1 True]]\<rparr>"

text \<open>The state-changing calls of the move engine, and their execution.\<close>

datatype MoveCall =
    DrawFromStock
  | MoveCardsToTableau Location nat CardsArray
  | MoveCardToFoundation Location int Card
  | TryMoveFoundationToTableau nat bool

fun perform :: "MoveCall \<Rightarrow> Engine \<Rightarrow> (bool \<times> Engine) option" where
  "perform DrawFromStock e = handleStockClick e"
| "perform (MoveCardsToTableau fromLocation toColIndex cards) e =
     moveCardsToTableau fromLocation toColIndex cards e"
| "perform (MoveCardToFoundation fromLocation foundationIndex c) e =
     moveCardToFoundation fromLocation foundationIndex c e"
| "perform (TryMoveFoundationToTableau foundationIndex elementsFound) e =
     tryMoveFoundationToTableau foundationIndex elementsFound e"

subsection \<open>The hint priorities in the words of the specification\<close>

text \<open>
  The candidates of a column are found from its top card when that card is face-up: the
  move to its foundation, and the move to the first other column (lowest index) that
  accepts it.  Either move takes one card off the column, so it would reveal a card when
  \<open>wouldReveal g col 1\<close> holds.  Tier 1 holds the candidates of the columns where it
  does, column by column from the left, the foundation move of a column before its
  tableau move; tier 2 the foundation moves of the other columns; tier 3 the move of the
  top waste card to the first column that accepts it; tier 4 the tableau moves of the
  other columns.
\<close>

definition topFaceUpCard :: "GameState \<Rightarrow> nat \<Rightarrow> Card option" where
  "topFaceUpCard g col =
     (case nth_opt (tableau g) col of
        None \<Rightarrow> None
      | Some column \<Rightarrow> if column \<noteq> [] \<and> faceUp (last column) then Some (last column) else None)"

definition foundationHint :: "GameState \<Rightarrow> nat \<Rightarrow> HintMove list" where
  "foundationHint g col =
     (case topFaceUpCard g col of
        None \<Rightarrow> []
      | Some c \<Rightarrow>
          (case canMoveToFoundation g c of
             None \<Rightarrow> []
           | Some foundationIndex \<Rightarrow>
               if foundationIndex = - 1 then []
               else [\<lparr>htype = TableauToFoundation, hfrom = FromTableau col (cid c),
                      hto = ToFoundation foundationIndex,
                      willFlip = wouldReveal g col 1\<rparr>]))"

definition tableauHint :: "GameState \<Rightarrow> nat \<Rightarrow> HintMove list" where
  "tableauHint g col =
     (case topFaceUpCard g col of
        None \<Rightarrow> []
      | Some c \<Rightarrow>
          (case find (\<lambda>t. t \<noteq> col \<and> canMoveToTableau g [c] t = Some True)
                  [0..<length (tableau g)] of
             None \<Rightarrow> []
           | Some targetCol \<Rightarrow>
               [\<lparr>htype = TableauToTableau, hfrom = FromTableau col (cid c),
                 hto = ToTableau targetCol,
                 willFlip = wouldReveal g col 1\<rparr>]))"

definition wasteHint :: "GameState \<Rightarrow> HintMove list" where
  "wasteHint g =
     (if waste g = [] then []
      else case find (\<lambda>t. canMoveToTableau g [last (waste g)] t = Some True)
                  [0..<length (tableau g)] of
             None \<Rightarrow> []
           | Some targetCol \<Rightarrow>
               [\<lparr>htype = WasteToTableau, hfrom = FromWaste (cid (last (waste g))),
                 hto = ToTableau targetCol, willFlip = False\<rparr>])"

definition tier1 :: "GameState \<Rightarrow> nat list \<Rightarrow> HintMove list" where
  "tier1 g cols =
     concat (map (\<lambda>col. if wouldReveal g col 1 then foundationHint g col @ tableauHint g col
                         else []) cols)"

definition tier2 :: "GameState \<Rightarrow> nat list \<Rightarrow> HintMove list" where
  "tier2 g cols =
     concat (map (\<lambda>col. if wouldReveal g col 1 then [] else foundationHint g col) cols)"

definition tier4 :: "GameState \<Rightarrow> nat list \<Rightarrow> HintMove list" where
  "tier4 g cols =
     concat (map (\<lambda>col. if wouldReveal g col 1 then [] else tableauHint g col) cols)"

definition firstHint :: "HintMove list \<Rightarrow> HintMove option" where
  "firstHint ms = (case ms of [] \<Rightarrow> None | m # rest \<Rightarrow> Some m)"

definition hintPriorityList :: "GameState \<Rightarrow> HintMove list" where
  "hintPriorityList g =
     tier1 g [0..<length (tableau g)] @ tier2 g [0..<length (tableau g)] @
     wasteHint g @ tier4 g [0..<length (tableau g)]"

definition hintShape :: "GameState \<Rightarrow> bool" where
  "hintShape g =
     list_all (\<lambda>column. column = [] \<or> suit (last column) < length (foundations g)) (tableau g)"

subsection \<open>Calls whose cards are at their source\<close>

text \<open>
  The card arguments of a call are the cards on top of the source pile it names: the top
  card of the waste or of a foundation, or the run at the end of a tableau column, handed
  over in an array of the caller's own.
\<close>

fun runOnTop :: "Location \<Rightarrow> Card list \<Rightarrow> GameState \<Rightarrow> bool" where
  "runOnTop Waste cards g = (waste g \<noteq> [] \<and> cards = [last (waste g)])"
| "runOnTop (FoundationLoc k) cards g =
     (k < length (foundations g) \<and> foundations g ! k \<noteq> [] \<and> cards = [last (foundations g ! k)])"
| "runOnTop (TableauLoc k) cards g =
     (k < length (tableau g) \<and> length cards \<le> length (tableau g ! k) \<and>
      drop (length (tableau g ! k) - length cards) (tableau g ! k) = cards)"
| "runOnTop OtherLoc cards g = False"

fun cardsAtSource :: "MoveCall \<Rightarrow> GameState \<Rightarrow> bool" where
  "cardsAtSource DrawFromStock g = True"
| "cardsAtSource (MoveCardsToTableau fromLocation toColIndex cards) g =
     (case cards of OwnArray cs \<Rightarrow> runOnTop fromLocation cs g | _ \<Rightarrow> False)"
| "cardsAtSource (MoveCardToFoundation Waste foundationIndex c) g =
     (waste g \<noteq> [] \<and> last (waste g) = c)"
| "cardsAtSource (MoveCardToFoundation (TableauLoc k) foundationIndex c) g =
     (k < length (tableau g) \<and> tableau g ! k \<noteq> [] \<and> last (tableau g ! k) = c)"
| "cardsAtSource (MoveCardToFoundation (FoundationLoc k) foundationIndex c) g = False"
| "cardsAtSource (MoveCardToFoundation OtherLoc foundationIndex c) g = False"
| "cardsAtSource (TryMoveFoundationToTableau foundationIndex elementsFound) g = True"

text \<open>The cards of a list and of a list of piles, whatever their orientation.\<close>

definition cardsIn :: "Card list \<Rightarrow> Card multiset" where
  "cardsIn xs = mset (map faceDown xs)"

definition cardsInPiles :: "Card list list \<Rightarrow> Card multiset" where
  "cardsInPiles xss = cardsIn (concat xss)"

text \<open>The engine after a deal in which every random draw leaves the deck as
  \<^verbatim>\<open>createDeck\<close> built it.\<close>

definition dealtEngine :: Engine where
  "dealtEngine =
     (case startNewDeal (\<lambda>i. i) (newEngine None) of
        Some e \<Rightarrow> e
      | None \<Rightarrow> newEngine None)"

definition cardsOf :: "GameState \<Rightarrow> Card multiset" where
  "cardsOf g = cardsIn (stock g) + cardsIn (waste g) + cardsInPiles (foundations g) +
               cardsInPiles (tableau g)"

subsection \<open>Order of a tableau column\<close>

text \<open>
  In a column no face-down card lies above a face-up one: from its first face-up card on,
  every card is face-up.
\<close>

fun faceUpSuffix :: "Card list \<Rightarrow> bool" where
  "faceUpSuffix [] = True"
| "faceUpSuffix (c # cs) = (if faceUp c then list_all faceUp cs else faceUpSuffix cs)"

definition tableauOrdered :: "GameState \<Rightarrow> bool" where
  "tableauOrdered g = list_all faceUpSuffix (tableau g)"

definition openPilesFaceUp :: "GameState \<Rightarrow> bool" where
  "openPilesFaceUp g = (list_all faceUp (waste g) \<and> list_all (list_all faceUp) (foundations g))"

text \<open>
  Play in which every move takes its cards from the source and the cards it takes are
  face-up: the states reached from a deal by successful calls of the move engine whose
  card arguments are the face-up cards on top of the source they name, and by undo.
  A call outside this play can leave a face-down card above a face-up one in two ways:
  by appending a run that holds a face-down card, and by appending cards that stay in
  the waste as well and are turned face-down, wherever they lie, when the waste is
  recycled.
\<close>

fun faceUpCall :: "MoveCall \<Rightarrow> bool" where
  "faceUpCall DrawFromStock = True"
| "faceUpCall (MoveCardsToTableau fromLocation toColIndex cards) =
     (case cards of OwnArray cs \<Rightarrow> list_all faceUp cs | _ \<Rightarrow> False)"
| "faceUpCall (MoveCardToFoundation fromLocation foundationIndex c) = faceUp c"
| "faceUpCall (TryMoveFoundationToTableau foundationIndex elementsFound) = True"

inductive transferPlay :: "Engine \<Rightarrow> bool" where
  deal: "startNewDeal rnd e = Some e' \<Longrightarrow> transferPlay e'"
| move: "transferPlay e \<Longrightarrow> cardsAtSource call (gameState e) \<Longrightarrow> faceUpCall call \<Longrightarrow>
         perform call e = Some (True, e') \<Longrightarrow> transferPlay e'"
| undo: "transferPlay e \<Longrightarrow> undoLastMove e = (b, e') \<Longrightarrow> transferPlay e'"

text \<open>The invariant of such play: one deck, ordered columns, face-up waste and
  foundations, in the current state and in every snapshot of the undo history.\<close>

definition faceUpInv :: "GameState \<Rightarrow> bool" where
  "faceUpInv g = (tableauOrdered g \<and> openPilesFaceUp g)"

definition playInv :: "Engine \<Rightarrow> bool" where
  "playInv e =
     (faceUpInv (gameState e) \<and> oneDeck (gameState e) \<and>
      (case undoManager e of
         None \<Rightarrow> True
       | Some um \<Rightarrow> list_all (\<lambda>s. faceUpInv s \<and> oneDeck s) (history um)))"

text \<open>The engine after a deal in which the draw at index 50 is 11 and every other draw
  leaves the deck as it is: the queen of hearts is dealt face-down under the jack of
  spades in column 1.\<close>

definition reshuffledEngine :: Engine where
  "reshuffledEngine =
     (case startNewDeal (\<lambda>i. if i = 50 then 11 else i) (newEngine None) of
        Some e \<Rightarrow> e
      | None \<Rightarrow> newEngine None)"

text \<open>
  The engine after a deal whose draws bring the ace of hearts to the top of column 0, the
  two of hearts to the top of column 1 and the ace of spades to the top of column 2; and
  that engine after the ace of hearts has gone to its foundation, the ace of spades has
  been dropped on the two of hearts, and a drag of the two of hearts has started.
\<close>

definition acesEngine :: Engine where
  "acesEngine =
     (case startNewDeal (\<lambda>i. if i = 51 then 0 else if i = 49 then 1 else if i = 46 then 39 else i)
             (newEngine (Some newUndoManager)) of
        Some e \<Rightarrow> e
      | None \<Rightarrow> newEngine None)"

definition acesDragged :: "Engine option" where
  "acesDragged =
     Option.bind (tryMoveTableauToFoundation 0 False acesEngine) (\<lambda>(moved, e1).
     Option.bind (attemptMove (TableauLoc 2) (TableauLoc 1) (OwnArray [mkCard 3 1 True]) e1)
       (\<lambda>(success, e2). dragStartHandler (TableauLoc 1) (0, 2) e2))"

section \<open>The deal\<close>

lemma length_createDeck: "length createDeck = 52"
  by code_simp

lemma faceUp_createDeck: "map faceUp createDeck = replicate 52 False"
  by code_simp

lemma distinct_cid_createDeck: "distinct (map cid createDeck)"
  by code_simp

lemma length_shuffleFrom [simp]: "length (shuffleFrom rnd i deck) = length deck"
  by (induction i arbitrary: deck) (simp_all add: Let_def)

lemma mset_shuffleFrom: "i < length deck \<Longrightarrow> mset (shuffleFrom rnd i deck) = mset deck"
proof (induction i arbitrary: deck)
  case 0
  then show ?case by simp
next
  case (Suc i)
  let ?j = "rnd (Suc i) mod (Suc i + 1)"
  have "?j < Suc i + 1" by (rule mod_less_divisor) simp
  then have j: "?j < length deck" using Suc.prems by linarith
  have "mset (deck[Suc i := deck ! ?j, ?j := deck ! Suc i]) = mset deck"
    using Suc.prems j by (simp add: mset_swap)
  moreover have "i < length (deck[Suc i := deck ! ?j, ?j := deck ! Suc i])"
    using Suc.prems by simp
  ultimately show ?case using Suc.IH by (simp add: Let_def)
qed

lemma mset_shuffleDeck: "mset (shuffleDeck rnd deck) = mset deck"
proof (cases "deck = []")
  case True
  then show ?thesis by (simp add: shuffleDeck_def)
next
  case False
  then have "length deck - 1 < length deck" by (cases deck) simp_all
  then show ?thesis unfolding shuffleDeck_def by (rule mset_shuffleFrom)
qed

lemma length_shuffleDeck [simp]: "length (shuffleDeck rnd deck) = length deck"
  by (simp add: shuffleDeck_def)


lemma pop_Some: "xs \<noteq> [] \<Longrightarrow> pop xs = Some (last xs, butlast xs)"
  by (simp add: pop_def)

lemma dealRows_eq:
  "n \<le> length deck \<Longrightarrow>
   dealRows n deck column =
     Some (take (length deck - n) deck, column @ flipLast (take n (rev deck)))"
proof (induction n arbitrary: deck column)
  case 0
  then show ?case by (simp add: flipLast_def)
next
  case (Suc n)
  then have ne: "deck \<noteq> []" by auto
  then obtain ys y where d: "deck = ys @ [y]" by (metis rev_exhaust)
  have n: "n \<le> length ys" using Suc.prems d by simp
  show ?case
  proof (cases "n = 0")
    case True
    then show ?thesis using d by (simp add: pop_def flipLast_def)
  next
    case False
    then have "take n (rev ys) \<noteq> []" using n by (cases ys rule: rev_cases) auto
    then show ?thesis using d n False Suc.IH[OF n]
      by (simp add: pop_def flipLast_def butlast_append)
  qed
qed


lemma rev_take_diff: "k \<le> length xs \<Longrightarrow> rev (take (length xs - k) xs) = drop k (rev xs)"
  by (simp add: rev_take)

lemma dealCols_7:
  assumes "28 \<le> length deck"
  shows "dealCols [0..<7] deck [[], [], [], [], [], [], []] =
     Some (take (length deck - 28) deck,
       [flipLast (take 1 (rev deck)),
        flipLast (take 2 (drop 1 (rev deck))),
        flipLast (take 3 (drop 3 (rev deck))),
        flipLast (take 4 (drop 6 (rev deck))),
        flipLast (take 5 (drop 10 (rev deck))),
        flipLast (take 6 (drop 15 (rev deck))),
        flipLast (take 7 (drop 21 (rev deck)))])"
proof -
  have u: "[0..<7] = [0, 1, 2, 3, 4, 5, 6]" by (simp add: upt_rec)
  show ?thesis using assms
    by (simp add: u nth_opt_def dealRows_eq rev_take_diff del: dealRows.simps)
       (simp add: numeral_2_eq_2 numeral_3_eq_3)
qed


lemma faceDown_flipLast: "map faceDown (flipLast xs) = map faceDown xs"
proof (cases xs rule: rev_cases)
  case Nil
  then show ?thesis by (simp add: flipLast_def)
next
  case (snoc ys y)
  then show ?thesis by (simp add: flipLast_def faceDown_def)
qed

lemma map_eq_replicate_iff:
  "(map f xs = replicate (length xs) v) = (\<forall>x \<in> set xs. f x = v)"
  by (induction xs) auto

lemma faceUp_flipLast:
  assumes "xs \<noteq> []" and "\<forall>c \<in> set xs. \<not> faceUp c"
  shows "map faceUp (flipLast xs) = replicate (length xs - 1) False @ [True]"
proof -
  obtain ys y where xs: "xs = ys @ [y]" using assms(1) by (metis rev_exhaust)
  have "\<forall>c \<in> set ys. faceUp c = False" using assms(2) xs by simp
  then have "map faceUp ys = replicate (length ys) False"
    by (simp only: map_eq_replicate_iff)
  then show ?thesis using xs by (simp add: flipLast_def)
qed


lemma faceDown_createDeck: "map faceDown createDeck = createDeck"
  by code_simp

lemma cid_faceDown: "map cid (map faceDown xs) = map cid xs"
  by (simp add: faceDown_def)

lemma shuffled_props:
  fixes rnd defines "deck \<equiv> shuffleDeck rnd createDeck"
  shows "length deck = 52" and "\<forall>c \<in> set deck. \<not> faceUp c" and "mset deck = mset createDeck"
proof -
  show "length deck = 52" by (simp add: deck_def length_createDeck)
  show m: "mset deck = mset createDeck" by (simp add: deck_def mset_shuffleDeck)
  have "\<forall>c \<in> set createDeck. faceUp c = False"
    using faceUp_createDeck length_createDeck by (metis map_eq_replicate_iff)
  moreover have "set deck = set createDeck" using m by (rule mset_eq_setD)
  ultimately show "\<forall>c \<in> set deck. \<not> faceUp c" by simp
qed

lemma dealt_column:
  assumes "length deck = 52" and "\<forall>c \<in> set deck. \<not> faceUp c" and "k + n \<le> 52" and "0 < n"
  shows "map faceUp (flipLast (take n (drop k (rev deck)))) = replicate (n - 1) False @ [True]"
proof -
  let ?xs = "take n (drop k (rev deck))"
  have l: "length ?xs = n" using assms by simp
  then have ne: "?xs \<noteq> []" using assms(4) by auto
  have "\<forall>c \<in> set ?xs. \<not> faceUp c"
    using assms(2) by (metis in_set_dropD in_set_takeD set_rev)
  from faceUp_flipLast[OF ne this] l show ?thesis by simp
qed

lemma dealt_cards:
  assumes "length deck = 52"
  shows "mset (map faceDown (take 24 deck)) +
         mset (map faceDown (concat
          [flipLast (take 1 (rev deck)),
           flipLast (take 2 (drop 1 (rev deck))),
           flipLast (take 3 (drop 3 (rev deck))),
           flipLast (take 4 (drop 6 (rev deck))),
           flipLast (take 5 (drop 10 (rev deck))),
           flipLast (take 6 (drop 15 (rev deck))),
           flipLast (take 7 (drop 21 (rev deck)))])) = mset (map faceDown deck)"
proof -
  let ?r = "rev deck"
  have "take 28 ?r = take 1 ?r @ take 2 (drop 1 ?r) @ take 3 (drop 3 ?r) @ take 4 (drop 6 ?r)
          @ take 5 (drop 10 ?r) @ take 6 (drop 15 ?r) @ take 7 (drop 21 ?r)"
  proof -
    have "take 28 ?r = take (21 + 7) ?r" by simp
    also have "\<dots> = take 21 ?r @ take 7 (drop 21 ?r)" by (rule take_add)
    also have "take 21 ?r = take (15 + 6) ?r" by simp
    also have "\<dots> = take 15 ?r @ take 6 (drop 15 ?r)" by (rule take_add)
    also have "take 15 ?r = take (10 + 5) ?r" by simp
    also have "\<dots> = take 10 ?r @ take 5 (drop 10 ?r)" by (rule take_add)
    also have "take 10 ?r = take (6 + 4) ?r" by simp
    also have "\<dots> = take 6 ?r @ take 4 (drop 6 ?r)" by (rule take_add)
    also have "take 6 ?r = take (3 + 3) ?r" by simp
    also have "\<dots> = take 3 ?r @ take 3 (drop 3 ?r)" by (rule take_add)
    also have "take 3 ?r = take (1 + 2) ?r" by (simp add: numeral_3_eq_3)
    also have "\<dots> = take 1 ?r @ take 2 (drop 1 ?r)" by (rule take_add)
    finally show ?thesis by simp
  qed
  then have "mset (map faceDown (concat
          [flipLast (take 1 ?r), flipLast (take 2 (drop 1 ?r)), flipLast (take 3 (drop 3 ?r)),
           flipLast (take 4 (drop 6 ?r)), flipLast (take 5 (drop 10 ?r)),
           flipLast (take 6 (drop 15 ?r)), flipLast (take 7 (drop 21 ?r))]))
        = mset (map faceDown (take 28 ?r))"
    by (simp add: faceDown_flipLast)
  also have "take 28 ?r = rev (drop 24 deck)" using assms by (simp add: take_rev)
  finally have cols: "mset (map faceDown (concat
          [flipLast (take 1 ?r), flipLast (take 2 (drop 1 ?r)), flipLast (take 3 (drop 3 ?r)),
           flipLast (take 4 (drop 6 ?r)), flipLast (take 5 (drop 10 ?r)),
           flipLast (take 6 (drop 15 ?r)), flipLast (take 7 (drop 21 ?r))]))
        = mset (map faceDown (drop 24 deck))"
    by (simp only: rev_map[symmetric] mset_rev)
  have "mset (map faceDown (take 24 deck)) + mset (map faceDown (drop 24 deck))
        = mset (map faceDown (take 24 deck @ drop 24 deck))"
    by (simp only: map_append mset_append)
  then show ?thesis using cols by (simp only: append_take_drop_id)
qed


lemma startNewDeal_eq:
  fixes rnd defines "deck \<equiv> shuffleDeck rnd createDeck"
  shows "startNewDeal rnd e =
    Some (e\<lparr>undoManager := map_option reset (undoManager e),
            currentHint := None, revealedCardIds := {},
            gameState := emptyGameState\<lparr>tableau :=
                 [flipLast (take 1 (rev deck)),
                  flipLast (take 2 (drop 1 (rev deck))),
                  flipLast (take 3 (drop 3 (rev deck))),
                  flipLast (take 4 (drop 6 (rev deck))),
                  flipLast (take 5 (drop 10 (rev deck))),
                  flipLast (take 6 (drop 15 (rev deck))),
                  flipLast (take 7 (drop 21 (rev deck)))],
               stock := take 24 deck\<rparr>,
            firstMoveDone := False,
            notifications := notifications e @ [OnReset]\<rparr>)"
proof -
  have l: "length deck = 52" unfolding deck_def by (rule shuffled_props(1))
  then have "28 \<le> length deck" by simp
  from dealCols_7[OF this] l show ?thesis
    unfolding startNewDeal_def dealTableau_def deck_def[symmetric]
    by (simp add: emptyGameState_def Let_def)
qed

lemma startNewDeal_props:
  "\<exists>e'. startNewDeal rnd e = Some e' \<and>
     map faceUp (stock (gameState e')) = replicate 24 False \<and>
     waste (gameState e') = [] \<and>
     foundations (gameState e') = [[], [], [], []] \<and>
     map (map faceUp) (tableau (gameState e')) =
       [[True],
        [False, True],
        [False, False, True],
        [False, False, False, True],
        [False, False, False, False, True],
        [False, False, False, False, False, True],
        [False, False, False, False, False, False, True]] \<and>
     score (gameState e') = 0 \<and>
     moveCount (gameState e') = 0 \<and>
     oneDeck (gameState e')"
proof -
  define deck where "deck = shuffleDeck rnd createDeck"
  have l: "length deck = 52" and fd: "\<forall>c \<in> set deck. \<not> faceUp c"
    and m: "mset deck = mset createDeck"
    unfolding deck_def by (rule shuffled_props)+
  let ?tab = "[flipLast (take 1 (rev deck)),
                  flipLast (take 2 (drop 1 (rev deck))),
                  flipLast (take 3 (drop 3 (rev deck))),
                  flipLast (take 4 (drop 6 (rev deck))),
                  flipLast (take 5 (drop 10 (rev deck))),
                  flipLast (take 6 (drop 15 (rev deck))),
                  flipLast (take 7 (drop 21 (rev deck)))]"
  let ?g = "emptyGameState\<lparr>tableau := ?tab, stock := take 24 deck\<rparr>"
  obtain e' where e': "startNewDeal rnd e = Some e'" and g: "gameState e' = ?g"
    using startNewDeal_eq[of rnd e] unfolding deck_def by simp
  have stock: "map faceUp (stock ?g) = replicate 24 False"
  proof -
    have "\<forall>c \<in> set (take 24 deck). faceUp c = False" using fd by (auto dest: in_set_takeD)
    then have "map faceUp (take 24 deck) = replicate (length (take 24 deck)) False"
      by (simp only: map_eq_replicate_iff)
    then show ?thesis using l by simp
  qed
  have c0: "map faceUp (flipLast (take 1 (rev deck))) = [True]"
    using dealt_column[OF l fd, of 0 1] by simp
  have c1: "map faceUp (flipLast (take 2 (drop 1 (rev deck)))) = [False, True]"
    using dealt_column[OF l fd, of 1 2] by simp
  have c2: "map faceUp (flipLast (take 3 (drop 3 (rev deck)))) = [False, False, True]"
    using dealt_column[OF l fd, of 3 3] by (simp add: numeral_eq_Suc)
  have c3: "map faceUp (flipLast (take 4 (drop 6 (rev deck)))) = [False, False, False, True]"
    using dealt_column[OF l fd, of 6 4] by (simp add: numeral_eq_Suc)
  have c4: "map faceUp (flipLast (take 5 (drop 10 (rev deck)))) =
              [False, False, False, False, True]"
    using dealt_column[OF l fd, of 10 5] by (simp add: numeral_eq_Suc)
  have c5: "map faceUp (flipLast (take 6 (drop 15 (rev deck)))) =
              [False, False, False, False, False, True]"
    using dealt_column[OF l fd, of 15 6] by (simp add: numeral_eq_Suc)
  have c6: "map faceUp (flipLast (take 7 (drop 21 (rev deck)))) =
              [False, False, False, False, False, False, True]"
    using dealt_column[OF l fd, of 21 7] by (simp add: numeral_eq_Suc)
  have all: "allCards ?g = take 24 deck @ concat ?tab"
    by (simp add: allCards_def emptyGameState_def)
  have ms: "mset (map faceDown (allCards ?g)) = mset (map faceDown deck)"
    unfolding all using dealt_cards[OF l] by (simp only: map_append mset_append)
  have "mset (map faceDown deck) = mset (map faceDown createDeck)"
    using m by (metis mset_map)
  then have deckm: "mset (map faceDown (allCards ?g)) = mset createDeck"
    using ms by (simp only: faceDown_createDeck)
  then have "mset (map cid (map faceDown (allCards ?g))) = mset (map cid createDeck)"
    by (metis mset_map)
  then have "mset (map cid (allCards ?g)) = mset (map cid createDeck)"
    by (simp only: cid_faceDown)
  then have "distinct (map cid (allCards ?g))"
    using distinct_cid_createDeck by (metis mset_eq_imp_distinct_iff)
  then have od: "oneDeck ?g" using deckm by (simp only: oneDeck_def simp_thms)
  show ?thesis
  proof (intro exI conjI)
    show "startNewDeal rnd e = Some e'" by (rule e')
    show "map faceUp (stock (gameState e')) = replicate 24 False" using stock g by simp
    show "waste (gameState e') = []" using g by (simp add: emptyGameState_def)
    show "foundations (gameState e') = [[], [], [], []]" using g by (simp add: emptyGameState_def)
    show "map (map faceUp) (tableau (gameState e')) =
       [[True],
        [False, True],
        [False, False, True],
        [False, False, False, True],
        [False, False, False, False, True],
        [False, False, False, False, False, True],
        [False, False, False, False, False, False, True]]"
      using g c0 c1 c2 c3 c4 c5 c6 by simp
    show "score (gameState e') = 0" using g by (simp add: emptyGameState_def)
    show "moveCount (gameState e') = 0" using g by (simp add: emptyGameState_def)
    show "oneDeck (gameState e')" using g od by simp
  qed
qed

text \<open>
  Claim C5.  Whatever the shuffle draws, \<^verbatim>\<open>startNewDeal\<close> returns, and in the state it
  leaves the stock holds 24 cards, all face-down, the waste and the four foundations are
  empty, tableau column \<open>i\<close> holds \<open>i + 1\<close> cards of which only the last is face-up, score
  and move count are 0, and the piles together hold each of the 52 cards of the deck
  exactly once.
\<close>

theorem startNewDeal_layout:
  "\<exists>e'. startNewDeal rnd e = Some e' \<and>
     map faceUp (stock (gameState e')) = replicate 24 False \<and>
     waste (gameState e') = [] \<and>
     foundations (gameState e') = [[], [], [], []] \<and>
     map (map faceUp) (tableau (gameState e')) =
       [[True],
        [False, True],
        [False, False, True],
        [False, False, False, True],
        [False, False, False, False, True],
        [False, False, False, False, False, True],
        [False, False, False, False, False, False, True]] \<and>
     score (gameState e') = 0 \<and>
     moveCount (gameState e') = 0 \<and>
     oneDeck (gameState e')"
  by (rule startNewDeal_props)

section \<open>Stock, waste and the move functions\<close>

lemma drawLoop_eq:
  "n \<le> length (stock g) \<Longrightarrow>
   drawLoop n g =
     Some (g\<lparr>stock := take (length (stock g) - n) (stock g),
             waste := waste g @ map (\<lambda>c. c\<lparr>faceUp := True\<rparr>)
                                  (rev (drop (length (stock g) - n) (stock g)))\<rparr>)"
proof (induction n arbitrary: g)
  case 0
  then show ?case by simp
next
  case (Suc n)
  then have "stock g \<noteq> []" by auto
  then obtain ys y where s: "stock g = ys @ [y]" by (metis rev_exhaust)
  let ?g1 = "g\<lparr>stock := ys, waste := waste g @ [y\<lparr>faceUp := True\<rparr>]\<rparr>"
  have n: "n \<le> length (stock ?g1)" using Suc.prems s by simp
  have d: "drop (length ys - n) (ys @ [y]) = drop (length ys - n) ys @ [y]"
    using n by simp
  show ?case using Suc.IH[OF n] s n d
    by (simp add: pop_def)
qed


lemma recycleLoop_eq:
  "recycleLoop g =
     g\<lparr>waste := [], stock := stock g @ map (\<lambda>c. c\<lparr>faceUp := False\<rparr>) (rev (waste g))\<rparr>"
proof (induction g rule: recycleLoop.induct)
  case (1 g)
  show ?case
  proof (cases "waste g = []")
    case True
    then show ?thesis by (simp add: recycleLoop.simps[of g])
  next
    case False
    then obtain ys y where w: "waste g = ys @ [y]" by (metis rev_exhaust)
    have "0 < length (waste g)" using False by simp
    from "1.IH"[OF this] w show ?thesis
      by (simp add: recycleLoop.simps[of g])
  qed
qed


lemma gameState_captureUndoSnapshot [simp]:
  "gameState (captureUndoSnapshot e) = gameState e"
  by (simp add: captureUndoSnapshot_def split: option.splits)

lemma gameState_registerMove [simp]:
  "gameState (registerMove e) = (gameState e)\<lparr>moveCount := moveCount (gameState e) + 1\<rparr>"
  by (simp add: registerMove_def Let_def)

lemma gameState_checkWinCondition [simp]:
  "gameState (checkWinCondition e) = gameState e"
  by (simp add: checkWinCondition_def Let_def)

lemma gameState_animateCardMovement [simp]:
  "gameState (animateCardMovement b e) = gameState e"
  by (simp add: animateCardMovement_def)

lemma undoManager_registerMove [simp]: "undoManager (registerMove e) = undoManager e"
  by (simp add: registerMove_def Let_def)

lemma undoManager_checkWinCondition [simp]: "undoManager (checkWinCondition e) = undoManager e"
  by (simp add: checkWinCondition_def Let_def)

lemma undoManager_animateCardMovement [simp]:
  "undoManager (animateCardMovement b e) = undoManager e"
  by (simp add: animateCardMovement_def)

text \<open>
  \<^verbatim>\<open>handleStockClick\<close> of the engine in its three cases: drawing moves the last
  \<open>min 3 |stock|\<close> cards of the stock to the end of the waste, face-up; recycling moves
  the whole waste back, reversed and face-down; with both piles empty nothing changes.
  The score is untouched in each case.
\<close>

lemma handleStockClick_draw:
  assumes "stock (gameState e) \<noteq> []"
  shows "\<exists>e'. handleStockClick e = Some (True, e') \<and>
     gameState e' =
       (gameState e)\<lparr>
          stock := take (length (stock (gameState e)) - min 3 (length (stock (gameState e))))
                     (stock (gameState e)),
          waste := waste (gameState e) @
                     map (\<lambda>c. c\<lparr>faceUp := True\<rparr>)
                       (rev (drop (length (stock (gameState e)) - min 3 (length (stock (gameState e))))
                          (stock (gameState e)))),
          moveCount := moveCount (gameState e) + 1\<rparr>"
proof -
  let ?g = "gameState e"
  have "min 3 (length (stock ?g)) \<le> length (stock ?g)" by simp
  from drawLoop_eq[OF this] assms show ?thesis
    by (simp add: handleStockClick_def Let_def)
qed

lemma handleStockClick_recycle:
  assumes "stock (gameState e) = []" and "waste (gameState e) \<noteq> []"
  shows "\<exists>e'. handleStockClick e = Some (True, e') \<and>
     gameState e' =
       (gameState e)\<lparr>
          waste := [],
          stock := map (\<lambda>c. c\<lparr>faceUp := False\<rparr>) (rev (waste (gameState e))),
          moveCount := moveCount (gameState e) + 1\<rparr>"
  using assms by (simp add: handleStockClick_def Let_def recycleLoop_eq)

lemma handleStockClick_empty:
  assumes "stock (gameState e) = []" and "waste (gameState e) = []"
  shows "handleStockClick e = Some (False, e)"
  using assms by (simp add: handleStockClick_def)

text \<open>
  Drawing the whole stock puts its cards on the waste in reverse order; recycling that
  waste gives the stock back in its first order, face-down.
\<close>

lemma recycle_restores_draw_order:
  "map (\<lambda>c. c\<lparr>faceUp := False\<rparr>) (rev (map (\<lambda>c. c\<lparr>faceUp := True\<rparr>) (rev s))) =
   map (\<lambda>c. c\<lparr>faceUp := False\<rparr>) s"
  by (simp add: rev_map comp_def)

text \<open>
  Claim C3.  The claim holds of \<^verbatim>\<open>handleStockClick\<close> in the engine (the three lemmas
  above), but its copy in \<^verbatim>\<open>src/unnamed/part_001\<close> registers a move in every case:
  with stock and waste both empty it still increments the move count and notifies the
  shell.
\<close>

theorem handleStockClick_part001_registers_noop:
  "\<exists>e'. handleStockClick_part001 (e\<lparr>gameState := (gameState e)\<lparr>stock := [], waste := []\<rparr>\<rparr>) = Some e' \<and>
        moveCount (gameState e') = moveCount (gameState e) + 1 \<and>
        notifications e' \<noteq> notifications e"
  by (simp add: handleStockClick_part001_def registerMove_part001_def Let_def)


lemma canMoveToFoundation_def2:
  assumes "suit c < length (foundations g)"
  shows "canMoveToFoundation g c =
     Some (if (foundations g ! suit c = [] \<and> rank c = 1) \<or>
              (foundations g ! suit c \<noteq> [] \<and> rank c = rank (last (foundations g ! suit c)) + 1)
           then int (suit c) else - 1)"
  using assms by (simp add: canMoveToFoundation_def nth_opt_def Let_def)

text \<open>
  Claim C7.  When the legality check for a card does not yield the requested foundation
  index, \<^verbatim>\<open>moveCardToFoundation\<close> returns false, throws nothing, and leaves the whole
  engine unchanged: game state, undo history and notifications.
\<close>

theorem moveCardToFoundation_illegal:
  assumes "suit c < length (foundations (gameState e))"
    and "canMoveToFoundation (gameState e) c \<noteq> Some foundationIndex"
  shows "moveCardToFoundation fromLocation foundationIndex c e = Some (False, e)"
proof -
  obtain r where r: "canMoveToFoundation (gameState e) c = Some r"
    using canMoveToFoundation_def2[OF assms(1)] by simp
  then have "r \<noteq> foundationIndex" using assms(2) by simp
  then show ?thesis using r by (simp add: moveCardToFoundation_def)
qed


lemma canMoveToTableau_SomeD:
  "canMoveToTableau g cards col = Some True \<Longrightarrow> cards \<noteq> [] \<and> col < length (tableau g)"
  by (auto simp: canMoveToTableau_def nth_opt_def split: if_splits)

lemma flipLast_reveal:
  "(if column \<noteq> [] \<and> \<not> faceUp (last column)
    then butlast column @ [(last column)\<lparr>faceUp := True\<rparr>] else column) = flipLast column"
proof (cases column rule: rev_cases)
  case Nil
  then show ?thesis by (simp add: flipLast_def)
next
  case (snoc ys y)
  then show ?thesis by (cases "faceUp y") (simp_all add: flipLast_def)
qed

lemma gameState_revealTop:
  "gameState (revealTop k column e) =
     (gameState e)\<lparr>tableau := (tableau (gameState e))[k := flipLast column],
                    score := score (gameState e) +
                       (if column \<noteq> [] \<and> \<not> faceUp (last column) then 5 else 0)\<rparr>"
  using flipLast_reveal[of column]
  by (auto simp: revealTop_def Let_def)

lemma undoManager_revealTop [simp]: "undoManager (revealTop k column e) = undoManager e"
  by (simp add: revealTop_def Let_def)

lemma moveCardsToTableau_own:
  "moveCardsToTableau loc col (OwnArray cards) e =
     (case canMoveToTableau (gameState e) cards col of
        None \<Rightarrow> None
      | Some legal \<Rightarrow>
          if \<not> legal then Some (False, e)
          else
            (case removeRunFromSource loc (length cards) (captureUndoSnapshot e) of
               None \<Rightarrow> None
             | Some e2 \<Rightarrow>
                 (case nth_opt (tableau (gameState e2)) col of
                    None \<Rightarrow> None
                  | Some dest \<Rightarrow>
                      Some (True,
                        registerMove
                          (e2\<lparr>gameState :=
                               (gameState e2)\<lparr>tableau :=
                                 (tableau (gameState e2))[col := dest @ cards]\<rparr>\<rparr>)))))"
  by (auto simp: moveCardsToTableau_def split: option.splits)

lemma removeRunFromSource_fields:
  assumes "runOnTop loc cards (gameState e)"
  shows "\<exists>e2. removeRunFromSource loc (length cards) e = Some e2 \<and>
     undoManager e2 = undoManager e \<and>
     stock (gameState e2) = stock (gameState e) \<and>
     moveCount (gameState e2) = moveCount (gameState e) \<and>
     tableau (gameState e2) = tableauAfterRemoval loc cards (gameState e) \<and>
     score (gameState e2) = score (gameState e) + tableauMoveDelta loc cards (gameState e)"
proof (cases loc)
  case Waste
  then show ?thesis using assms
    by (simp add: removeRunFromSource_def tableauMoveDelta_def tableauAfterRemoval_def Let_def)
next
  case (FoundationLoc k)
  then show ?thesis using assms
    by (simp add: removeRunFromSource_def tableauMoveDelta_def tableauAfterRemoval_def Let_def
        nth_opt_def)
next
  case (TableauLoc k)
  then show ?thesis using assms
    by (simp add: removeRunFromSource_def tableauMoveDelta_def tableauAfterRemoval_def Let_def
        wouldReveal_def nth_opt_def gameState_revealTop)
next
  case OtherLoc
  then show ?thesis using assms by simp
qed

lemma length_tableauAfterRemoval [simp]:
  "length (tableauAfterRemoval loc cards g) = length (tableau g)"
  by (simp add: tableauAfterRemoval_def split: Location.splits)

text \<open>
  Claim C4.  A legal move is a run that \<^verbatim>\<open>canMoveToTableau\<close> accepts and that lies on
  top of its source: the top card of the waste or of a foundation (a move from either
  takes exactly one card), or the end of a tableau column.  In a state where no card
  lies twice, \<^verbatim>\<open>moveCardsToTableau\<close> executes it and adds to the score exactly 5 when the
  source is the waste, -15 when it is a foundation, and 5 when it is a tableau column
  whose new top card is face-down, which is turned face-up.  The run is appended in
  order to the destination column, and the move count grows by one.
\<close>

theorem moveCardsToTableau_scoring:
  assumes "noCardTwice (gameState e)"
    and "runOnTop fromLocation cards (gameState e)"
    and "canMoveToTableau (gameState e) cards toColIndex = Some True"
  shows "\<exists>e'. moveCardsToTableau fromLocation toColIndex (OwnArray cards) e = Some (True, e') \<and>
     score (gameState e') =
       score (gameState e) + tableauMoveDelta fromLocation cards (gameState e) \<and>
     moveCount (gameState e') = moveCount (gameState e) + 1 \<and>
     tableau (gameState e') =
       (tableauAfterRemoval fromLocation cards (gameState e))
         [toColIndex := tableauAfterRemoval fromLocation cards (gameState e) ! toColIndex @ cards]"
proof -
  have col: "toColIndex < length (tableau (gameState e))"
    using canMoveToTableau_SomeD[OF assms(3)] by simp
  have "runOnTop fromLocation cards (gameState (captureUndoSnapshot e))"
    using assms(2) by simp
  from removeRunFromSource_fields[OF this]
  obtain e2 where
    e2: "removeRunFromSource fromLocation (length cards) (captureUndoSnapshot e) = Some e2"
    and t2: "tableau (gameState e2) = tableauAfterRemoval fromLocation cards (gameState e)"
    and s2: "score (gameState e2) =
               score (gameState e) + tableauMoveDelta fromLocation cards (gameState e)"
    and m2: "moveCount (gameState e2) = moveCount (gameState e)"
    by auto
  show ?thesis using assms(3) e2 t2 s2 m2 col
    by (simp add: moveCardsToTableau_own nth_opt_def)
qed

text \<open>
  Claim C10.  Called with the waste or a foundation as source and a legal run of two or
  more cards, \<^verbatim>\<open>moveCardsToTableau\<close> returns true, appends the whole run to the
  destination column and counts a move; waste, foundations, stock and score stay as they
  were.  This holds for an array of the caller's (\<open>cards = OwnArray run\<close>) and for a
  pile array passed as \<^verbatim>\<open>cards\<close> alike: nothing is removed, so the array holds the
  same run when it is pushed.
\<close>

theorem moveCardsToTableau_long_run_keeps_source:
  assumes "arrayCards (gameState e) cards = Some run"
    and "canMoveToTableau (gameState e) run toColIndex = Some True"
    and "2 \<le> length run"
    and "fromLocation = Waste \<or> fromLocation = FoundationLoc k"
  shows "\<exists>e'. moveCardsToTableau fromLocation toColIndex cards e = Some (True, e') \<and>
     gameState e' =
       (gameState e)\<lparr>
         tableau := (tableau (gameState e))
                      [toColIndex := tableau (gameState e) ! toColIndex @ run],
         moveCount := moveCount (gameState e) + 1\<rparr>"
proof -
  have col: "toColIndex < length (tableau (gameState e))"
    using canMoveToTableau_SomeD[OF assms(2)] by simp
  have "removeRunFromSource fromLocation (length run) (captureUndoSnapshot e) =
        Some (captureUndoSnapshot e)"
    using assms(3,4) by (auto simp: removeRunFromSource_def Let_def)
  then show ?thesis using assms(1,2) col
    by (simp add: moveCardsToTableau_def nth_opt_def)
qed


lemmas engineA_simps =
  engineA_def positionA_def newEngine_def newUndoManager_def mkCard_def

theorem moveCardToFoundation_illegal_witness:
  "suit (mkCard 3 3 True) < length (foundations (gameState engineA)) \<and>
   canMoveToFoundation (gameState engineA) (mkCard 3 3 True) \<noteq> Some 0 \<and>
   moveCardToFoundation Waste 0 (mkCard 3 3 True) engineA = Some (False, engineA)"
proof -
  have h1: "suit (mkCard 3 3 True) < length (foundations (gameState engineA))"
    by (simp add: engineA_simps)
  have h2: "canMoveToFoundation (gameState engineA) (mkCard 3 3 True) \<noteq> Some 0"
    by (simp add: engineA_simps canMoveToFoundation_def nth_opt_def)
  show ?thesis using h1 h2 moveCardToFoundation_illegal[OF h1 h2, of Waste] by simp
qed

theorem moveCardsToTableau_long_run_witness:
  "arrayCards (gameState engineA) (OwnArray [mkCard 3 13 True, mkCard 0 12 True]) =
     Some [mkCard 3 13 True, mkCard 0 12 True] \<and>
   canMoveToTableau (gameState engineA) [mkCard 3 13 True, mkCard 0 12 True] 0 = Some True \<and>
   2 \<le> length [mkCard 3 13 True, mkCard 0 12 True] \<and>
   (\<exists>e'. moveCardsToTableau Waste 0 (OwnArray [mkCard 3 13 True, mkCard 0 12 True]) engineA
            = Some (True, e') \<and>
     waste (gameState e') = waste (gameState engineA) \<and>
     tableau (gameState e') ! 0 = [mkCard 3 13 True, mkCard 0 12 True] \<and>
     moveCount (gameState e') = 5)"
proof -
  let ?cards = "[mkCard 3 13 True, mkCard 0 12 True]"
  have h0: "arrayCards (gameState engineA) (OwnArray ?cards) = Some ?cards"
    by simp
  have h1: "canMoveToTableau (gameState engineA) ?cards 0 = Some True"
    by (simp add: engineA_simps canMoveToTableau_def nth_opt_def)
  have h2: "2 \<le> length ?cards" by simp
  have h3: "Waste = Waste \<or> Waste = FoundationLoc 0" by simp
  from moveCardsToTableau_long_run_keeps_source[OF h0 h1 h2 h3]
  obtain e' where e': "moveCardsToTableau Waste 0 (OwnArray ?cards) engineA = Some (True, e')"
    and g': "gameState e' =
       (gameState engineA)\<lparr>
         tableau := (tableau (gameState engineA))
                      [0 := tableau (gameState engineA) ! 0 @ ?cards],
         moveCount := moveCount (gameState engineA) + 1\<rparr>"
    by blast
  have "waste (gameState e') = waste (gameState engineA)" using g' by simp
  moreover have "tableau (gameState e') ! 0 = ?cards" using g' by (simp add: engineA_simps)
  moreover have "moveCount (gameState e') = 5" using g' by (simp add: engineA_simps)
  ultimately show ?thesis using h0 h1 h2 e' by blast
qed

theorem moveCardsToTableau_scoring_witness:
  "noCardTwice (gameState engineA) \<and>
   runOnTop (TableauLoc 1) [mkCard 0 6 True] (gameState engineA) \<and>
   canMoveToTableau (gameState engineA) [mkCard 0 6 True] 2 = Some True \<and>
   (\<exists>e'. moveCardsToTableau (TableauLoc 1) 2 (OwnArray [mkCard 0 6 True]) engineA = Some (True, e') \<and>
     score (gameState e') = 15 \<and>
     moveCount (gameState e') = 5 \<and>
     tableau (gameState e') =
       [[], [mkCard 2 5 True], [mkCard 3 7 True, mkCard 0 6 True], [], [], [], []]) \<and>
   runOnTop Waste [mkCard 3 13 True] (gameState engineA) \<and>
   canMoveToTableau (gameState engineA) [mkCard 3 13 True] 0 = Some True \<and>
   (\<exists>e'. moveCardsToTableau Waste 0 (OwnArray [mkCard 3 13 True]) engineA = Some (True, e') \<and>
     score (gameState e') = 15 \<and>
     moveCount (gameState e') = 5 \<and>
     tableau (gameState e') =
       [[mkCard 3 13 True], [mkCard 2 5 False, mkCard 0 6 True], [mkCard 3 7 True], [], [], [], []])"
proof -
  let ?cards = "[mkCard 0 6 True]"
  let ?king = "[mkCard 3 13 True]"
  have h0: "noCardTwice (gameState engineA)"
    by (simp add: engineA_simps noCardTwice_def allCards_def)
  have h1: "runOnTop (TableauLoc 1) ?cards (gameState engineA)"
    by (simp add: engineA_simps)
  have h2: "canMoveToTableau (gameState engineA) ?cards 2 = Some True"
    by (simp add: engineA_simps canMoveToTableau_def nth_opt_def)
  have k1: "runOnTop Waste ?king (gameState engineA)"
    by (simp add: engineA_simps)
  have k2: "canMoveToTableau (gameState engineA) ?king 0 = Some True"
    by (simp add: engineA_simps canMoveToTableau_def nth_opt_def)
  from moveCardsToTableau_scoring[OF h0 h1 h2]
  obtain e' where e': "moveCardsToTableau (TableauLoc 1) 2 (OwnArray ?cards) engineA = Some (True, e')"
    and s: "score (gameState e') =
       score (gameState engineA) + tableauMoveDelta (TableauLoc 1) ?cards (gameState engineA)"
    and m: "moveCount (gameState e') = moveCount (gameState engineA) + 1"
    and t: "tableau (gameState e') =
       (tableauAfterRemoval (TableauLoc 1) ?cards (gameState engineA))
         [2 := tableauAfterRemoval (TableauLoc 1) ?cards (gameState engineA) ! 2 @ ?cards]"
    by blast
  from moveCardsToTableau_scoring[OF h0 k1 k2]
  obtain e'' where e'': "moveCardsToTableau Waste 0 (OwnArray ?king) engineA = Some (True, e'')"
    and s': "score (gameState e'') =
       score (gameState engineA) + tableauMoveDelta Waste ?king (gameState engineA)"
    and m': "moveCount (gameState e'') = moveCount (gameState engineA) + 1"
    and t': "tableau (gameState e'') =
       (tableauAfterRemoval Waste ?king (gameState engineA))
         [0 := tableauAfterRemoval Waste ?king (gameState engineA) ! 0 @ ?king]"
    by blast
  have a1: "score (gameState e') = 15"
    using s by (simp add: engineA_simps tableauMoveDelta_def wouldReveal_def)
  have a2: "moveCount (gameState e') = 5" using m by (simp add: engineA_simps)
  have a3: "tableau (gameState e') =
       [[], [mkCard 2 5 True], [mkCard 3 7 True, mkCard 0 6 True], [], [], [], []]"
    using t by (simp add: engineA_simps tableauAfterRemoval_def flipLast_def)
  have b1: "score (gameState e'') = 15"
    using s' by (simp add: engineA_simps tableauMoveDelta_def)
  have b2: "moveCount (gameState e'') = 5" using m' by (simp add: engineA_simps)
  have b3: "tableau (gameState e'') =
       [[mkCard 3 13 True], [mkCard 2 5 False, mkCard 0 6 True], [mkCard 3 7 True], [], [], [], []]"
    using t' by (simp add: engineA_simps tableauAfterRemoval_def)
  show ?thesis using h0 h1 h2 k1 k2 e' a1 a2 a3 e'' b1 b2 b3 by blast
qed

section \<open>Undo\<close>

lemma undoManager_removeRunFromSource:
  "removeRunFromSource loc cards e = Some e2 \<Longrightarrow> undoManager e2 = undoManager e"
  by (auto simp: removeRunFromSource_def Let_def split: Location.splits if_splits option.splits)

lemma undoManager_removeCardFromSource:
  "removeCardFromSource loc e = Some e2 \<Longrightarrow> undoManager e2 = undoManager e"
  by (auto simp: removeCardFromSource_def Let_def split: Location.splits if_splits option.splits)

lemma undoManager_captureUndoSnapshot:
  "undoManager e = Some um \<Longrightarrow>
   undoManager (captureUndoSnapshot e) = Some (pushSnapshot (gameState e) um)"
  by (simp add: captureUndoSnapshot_def)

lemma handleStockClick_undoManager:
  "handleStockClick e = Some (True, e') \<Longrightarrow> undoManager e' = undoManager (captureUndoSnapshot e)"
  by (auto simp: handleStockClick_def Let_def split: if_splits option.splits)

lemma moveCardsToTableau_undoManager:
  "moveCardsToTableau loc col cards e = Some (True, e') \<Longrightarrow>
   undoManager e' = undoManager (captureUndoSnapshot e)"
  by (auto simp: moveCardsToTableau_def split: if_splits option.splits
      dest: undoManager_removeRunFromSource)

lemma moveCardToFoundation_undoManager:
  "moveCardToFoundation loc i c e = Some (True, e') \<Longrightarrow>
   undoManager e' = undoManager (captureUndoSnapshot e)"
  by (auto simp: moveCardToFoundation_def split: if_splits option.splits
      dest: undoManager_removeCardFromSource)

lemma foundationToTableauLoop_undoManager:
  "foundationToTableauLoop cols k foundation b e = Some (True, e') \<Longrightarrow>
   undoManager e' = undoManager (captureUndoSnapshot e)"
  by (induction cols) (auto simp: Let_def split: if_splits option.splits)

lemma tryMoveFoundationToTableau_undoManager:
  "tryMoveFoundationToTableau k b e = Some (True, e') \<Longrightarrow>
   undoManager e' = undoManager (captureUndoSnapshot e)"
  by (auto simp: tryMoveFoundationToTableau_def split: if_splits option.splits
      dest: foundationToTableauLoop_undoManager)

lemma perform_undoManager:
  "perform call e = Some (True, e') \<Longrightarrow> undoManager e' = undoManager (captureUndoSnapshot e)"
  by (cases call)
     (auto dest: handleStockClick_undoManager moveCardsToTableau_undoManager
        moveCardToFoundation_undoManager tryMoveFoundationToTableau_undoManager)

lemma history_pushSnapshot:
  assumes "0 < maxHistory um"
  shows "history (pushSnapshot s um) \<noteq> [] \<and> last (history (pushSnapshot s um)) = s"
proof -
  let ?h = "history um @ [s]"
  have "length ?h - maxHistory um < length ?h" using assms by simp
  then have "drop (length ?h - maxHistory um) ?h \<noteq> []" by simp
  moreover from this have "last (drop (length ?h - maxHistory um) ?h) = s"
    by (metis last_drop last_snoc \<open>length ?h - maxHistory um < length ?h\<close>)
  ultimately show ?thesis by (simp add: pushSnapshot_def cloneState_def Let_def)
qed

lemma maxHistory_positive:
  "0 < maxHistory newUndoManager"
  "0 < maxHistory um \<Longrightarrow> 0 < maxHistory (setMaxHistory limit um)"
  "0 < maxHistory um \<Longrightarrow> 0 < maxHistory (pushSnapshot s um)"
  "0 < maxHistory um \<Longrightarrow> 0 < maxHistory (snd (undo um))"
  "0 < maxHistory um \<Longrightarrow> 0 < maxHistory (reset um)"
  by (simp_all add: newUndoManager_def setMaxHistory_def pushSnapshot_def undo_def reset_def Let_def)

lemma undoLastMove_without_manager:
  "undoManager e = None \<Longrightarrow> undoLastMove e = (False, e)"
  by (simp add: undoLastMove_def)

text \<open>
  Claim C2, amended.  With the shared undo manager attached, every call of the move engine
  that reports success has pushed exactly one snapshot, the game state as it was before
  the call, and one \<^verbatim>\<open>undoLastMove\<close> then returns true and puts that state back in
  every field.  The history cap is positive: it starts at 500 and \<^verbatim>\<open>setMaxHistory\<close>
  only accepts positive limits.
\<close>

theorem undo_restores_state:
  assumes "undoManager e = Some um" and "0 < maxHistory um"
    and "perform call e = Some (True, e')"
  shows "undoManager e' = Some (pushSnapshot (gameState e) um) \<and>
         fst (undoLastMove e') = True \<and>
         gameState (snd (undoLastMove e')) = gameState e"
proof -
  let ?um' = "pushSnapshot (gameState e) um"
  have um': "undoManager e' = Some ?um'"
    using perform_undoManager[OF assms(3)] undoManager_captureUndoSnapshot[OF assms(1)] by simp
  have h: "history ?um' \<noteq> []" and l: "last (history ?um') = gameState e"
    using history_pushSnapshot[OF assms(2)] by auto
  show ?thesis using um' h l
    by (simp add: undoLastMove_def canUndo_def undo_def)
qed


theorem undo_restores_state_witness:
  "undoManager engineA = Some newUndoManager \<and> 0 < maxHistory newUndoManager \<and>
   (\<exists>e'. perform DrawFromStock engineA = Some (True, e') \<and>
      stock (gameState e') = [mkCard 3 13 False, mkCard 0 12 False] \<and>
      undoManager e' = Some (pushSnapshot positionA newUndoManager) \<and>
      fst (undoLastMove e') = True \<and>
      gameState (snd (undoLastMove e')) = positionA)"
proof -
  have h1: "undoManager engineA = Some newUndoManager" by (simp add: engineA_def newEngine_def)
  have h2: "0 < maxHistory newUndoManager" by (simp add: newUndoManager_def)
  have g: "gameState engineA = positionA" by (simp add: engineA_def)
  have "stock (gameState engineA) = []" and "waste (gameState engineA) \<noteq> []"
    by (simp_all add: engineA_simps)
  from handleStockClick_recycle[OF this]
  obtain e' where h3: "perform DrawFromStock engineA = Some (True, e')"
    and s: "stock (gameState e') = [mkCard 3 13 False, mkCard 0 12 False]"
    by (auto simp: engineA_simps)
  from undo_restores_state[OF h1 h2 h3] h1 h2 h3 s g show ?thesis by auto
qed

text \<open>
  Claim C2 as stated fails.  On a page without the shared undo manager
  \<^verbatim>\<open>captureUndoSnapshot\<close> returns at once: after a deal a draw from the stock succeeds,
  no snapshot exists, and \<^verbatim>\<open>undoLastMove\<close> returns false with the three drawn cards
  still on the waste.
\<close>

theorem undo_without_manager_fails:
  "undoManager dealtEngine = None \<and>
   map_option fst (perform DrawFromStock dealtEngine) = Some True \<and>
   map_option (fst \<circ> undoLastMove \<circ> snd) (perform DrawFromStock dealtEngine) = Some False \<and>
   map_option (length \<circ> waste \<circ> gameState \<circ> snd \<circ> undoLastMove \<circ> snd)
     (perform DrawFromStock dealtEngine) = Some 3"
  by code_simp

section \<open>The animation gate\<close>

text \<open>
  Claim C9.  While \<^verbatim>\<open>isAnimating\<close> holds, the stock click, card click, drag start and
  drop handlers return at once and leave the engine as it is: game state, counters and
  notifications.  With a move (flip) duration of zero, \<^verbatim>\<open>animateCardMovement\<close>
  (\<^verbatim>\<open>animateRevealedCards\<close>) sets no flag, so no window opens.
\<close>

theorem animating_gate:
  "(isAnimating e \<longrightarrow>
      stockClickHandler e = Some e \<and>
      clickHandler location cardId isFaceUpClass elementsFound e = Some e \<and>
      dragStartHandler location cardId e = Some e \<and>
      dropHandler dropZoneId e = Some e) \<and>
   (moveDurationMs e = 0 \<longrightarrow> animateCardMovement elementsFound e = e) \<and>
   (flipTotalMs e = 0 \<longrightarrow> animateRevealedCards elementFound e = e)"
  by (simp add: stockClickHandler_def clickHandler_def dragStartHandler_def dropHandler_def
      animateCardMovement_def animateRevealedCards_def)

theorem animating_gate_witness:
  "isAnimating (engineA\<lparr>isMoveAnimating := True\<rparr>) \<and>
   stockClickHandler (engineA\<lparr>isMoveAnimating := True\<rparr>) = Some (engineA\<lparr>isMoveAnimating := True\<rparr>) \<and>
   clickHandler Waste (3, 13) True True (engineA\<lparr>isMoveAnimating := True\<rparr>)
     = Some (engineA\<lparr>isMoveAnimating := True\<rparr>) \<and>
   dropHandler (TableauLoc 0) (engineA\<lparr>isMoveAnimating := True\<rparr>)
     = Some (engineA\<lparr>isMoveAnimating := True\<rparr>) \<and>
   moveDurationMs (engineA\<lparr>animationBaseMs := 0\<rparr>) = 0 \<and>
   animateCardMovement True (engineA\<lparr>animationBaseMs := 0\<rparr>) = engineA\<lparr>animationBaseMs := 0\<rparr> \<and>
   flipTotalMs (engineA\<lparr>animationBaseMs := 0\<rparr>) = 0 \<and>
   animateRevealedCards (\<lambda>i. True) (engineA\<lparr>animationBaseMs := 0, revealedCardIds := {(2, 5)}\<rparr>)
     = engineA\<lparr>animationBaseMs := 0, revealedCardIds := {(2, 5)}\<rparr>"
proof -
  let ?e1 = "engineA\<lparr>isMoveAnimating := True\<rparr>"
  let ?e2 = "engineA\<lparr>animationBaseMs := 0\<rparr>"
  let ?e3 = "engineA\<lparr>animationBaseMs := 0, revealedCardIds := {(2, 5)}\<rparr>"
  have a: "isAnimating ?e1" by (simp add: isAnimating_def)
  have m: "moveDurationMs ?e2 = 0" by (simp add: moveDurationMs_def)
  have f: "flipTotalMs ?e3 = 0" "flipTotalMs ?e2 = 0" by (simp_all add: flipTotalMs_def)
  show ?thesis
    using a m f
      animating_gate[of ?e1 Waste "(3, 13)" True True "TableauLoc 0" "\<lambda>i. True"]
      animating_gate[of ?e2 Waste "(3, 13)" True True "TableauLoc 0" "\<lambda>i. True"]
      animating_gate[of ?e3 Waste "(3, 13)" True True "TableauLoc 0" "\<lambda>i. True"]
    by simp
qed

section \<open>The hint engine\<close>

lemma last_take_nth: "0 < k \<Longrightarrow> k \<le> length xs \<Longrightarrow> last (take k xs) = xs ! (k - 1)"
proof -
  assume a: "0 < k" "k \<le> length xs"
  then have "take k xs \<noteq> []" by auto
  then have "last (take k xs) = take k xs ! (length (take k xs) - 1)" by (rule last_conv_nth)
  also have "\<dots> = xs ! (k - 1)" using a by simp
  finally show ?thesis .
qed

text \<open>The reveal check of the hint engine is the one of the specification.\<close>

lemma willTableauMoveFlip_wouldReveal:
  "willTableauMoveFlip g col n = wouldReveal g col n"
proof (cases "col < length (tableau g)")
  case False
  then show ?thesis by (simp add: willTableauMoveFlip_def wouldReveal_def nth_opt_def)
next
  case col: True
  show ?thesis
  proof (cases "length (tableau g ! col) \<le> n")
    case True
    then show ?thesis using col
      by (simp add: willTableauMoveFlip_def wouldReveal_def nth_opt_def)
  next
    case False
    then have "last (take (length (tableau g ! col) - n) (tableau g ! col)) =
          tableau g ! col ! (length (tableau g ! col) - n - 1)"
      by (simp add: last_take_nth)
    moreover have "tableau g ! col \<noteq> []" using False by auto
    ultimately show ?thesis using col False
      by (simp add: willTableauMoveFlip_def wouldReveal_def nth_opt_def Let_def)
  qed
qed

lemma canMoveToTableau_in_range:
  "t < length (tableau g) \<Longrightarrow> \<exists>b. canMoveToTableau g cards t = Some b"
  by (auto simp: canMoveToTableau_def nth_opt_def Let_def)

lemma findTableauTarget_find:
  assumes "\<forall>t \<in> set cols. t < length (tableau g)"
  shows "findTableauTarget g cards skip cols =
     Some (find (\<lambda>t. \<not> skip t \<and> canMoveToTableau g cards t = Some True) cols)"
  using assms
proof (induction cols)
  case Nil
  then show ?case by simp
next
  case (Cons t cols)
  then obtain b where b: "canMoveToTableau g cards t = Some b"
    using canMoveToTableau_in_range[of t g cards] by auto
  show ?case using Cons b by (cases b) auto
qed

lemma hintTableauLoop_tiers:
  assumes "hintShape g" and "\<forall>col \<in> set cols. col < length (tableau g)"
  shows "hintTableauLoop g cols (p1, p2, p4) =
     Some (p1 @ tier1 g cols, p2 @ tier2 g cols, p4 @ tier4 g cols)"
  using assms(2)
proof (induction cols arbitrary: p1 p2 p4)
  case Nil
  then show ?case by (simp add: tier1_def tier2_def tier4_def)
next
  case (Cons col cols)
  have col: "col < length (tableau g)" using Cons.prems by simp
  have rest: "\<forall>c \<in> set cols. c < length (tableau g)" using Cons.prems by simp
  note IH = Cons.IH[OF rest]
  have t1: "tier1 g (col # cols) =
       (if wouldReveal g col 1 then foundationHint g col @ tableauHint g col else []) @
       tier1 g cols"
    and t2: "tier2 g (col # cols) =
       (if wouldReveal g col 1 then [] else foundationHint g col) @ tier2 g cols"
    and t4: "tier4 g (col # cols) =
       (if wouldReveal g col 1 then [] else tableauHint g col) @ tier4 g cols"
    by (simp_all add: tier1_def tier2_def tier4_def)
  let ?column = "tableau g ! col"
  show ?case
  proof (cases "?column \<noteq> [] \<and> faceUp (last ?column)")
    case False
    then have "topFaceUpCard g col = None" using col by (simp add: topFaceUpCard_def nth_opt_def)
    then have "foundationHint g col = []" "tableauHint g col = []"
      by (simp_all add: foundationHint_def tableauHint_def)
    then show ?thesis using False col IH t1 t2 t4
      by (auto simp: nth_opt_def Let_def)
  next
    case True
    let ?c = "last ?column"
    have top: "topFaceUpCard g col = Some ?c" using True col
      by (simp add: topFaceUpCard_def nth_opt_def)
    have "suit ?c < length (foundations g)"
      using assms(1) col True by (auto simp: hintShape_def list_all_length)
    then obtain fi where fi: "canMoveToFoundation g ?c = Some fi"
      using canMoveToFoundation_def2[of ?c g] by simp
    have ft: "findTableauTarget g [?c] (\<lambda>t. t = col) [0..<length (tableau g)] =
        Some (find (\<lambda>t. t \<noteq> col \<and> canMoveToTableau g [?c] t = Some True) [0..<length (tableau g)])"
      by (subst findTableauTarget_find) simp_all
    show ?thesis
    proof (cases "find (\<lambda>t. t \<noteq> col \<and> canMoveToTableau g [?c] t = Some True) [0..<length (tableau g)]")
      case None
      then have th: "tableauHint g col = []" using top by (simp add: tableauHint_def)
      show ?thesis using True col fi ft None th top IH t1 t2 t4
        by (simp add: nth_opt_def Let_def foundationHint_def willTableauMoveFlip_wouldReveal)
    next
      case (Some tc)
      then have th: "tableauHint g col =
          [\<lparr>htype = TableauToTableau, hfrom = FromTableau col (cid ?c),
                 hto = ToTableau tc, willFlip = wouldReveal g col 1\<rparr>]"
        using top by (simp add: tableauHint_def)
      show ?thesis using True col fi ft Some th top IH t1 t2 t4
        by (simp add: nth_opt_def Let_def foundationHint_def willTableauMoveFlip_wouldReveal)
    qed
  qed
qed


lemma hintWaste_eq: "hintWaste g = Some (wasteHint g)"
proof (cases "waste g = []")
  case True
  then show ?thesis by (simp add: hintWaste_def wasteHint_def)
next
  case False
  have "findTableauTarget g [last (waste g)] (\<lambda>t. False) [0..<length (tableau g)] =
        Some (find (\<lambda>t. canMoveToTableau g [last (waste g)] t = Some True) [0..<length (tableau g)])"
    by (subst findTableauTarget_find) simp_all
  then show ?thesis using False
    by (simp add: hintWaste_def wasteHint_def Let_def split: option.splits)
qed

lemma firstHint_append:
  "firstHint (a @ b @ c @ d) =
     (if length a > 0 then Some (hd a)
      else if length b > 0 then Some (hd b)
      else if length c > 0 then Some (hd c)
      else if length d > 0 then Some (hd d)
      else None)"
  by (cases a; cases b; cases c; cases d) (simp_all add: firstHint_def)

text \<open>
  Claim C6.  \<^verbatim>\<open>computeHintMove\<close> returns the first move of the first non-empty tier of
  the specification, and no move when all four tiers are empty; \<^verbatim>\<open>requestHint\<close>
  stores that result and leaves the game state as it is: piles, orientation of cards,
  score and move count.
\<close>

theorem computeHintMove_priority:
  assumes "hintShape (gameState e)"
  shows "computeHintMove (gameState e) = Some (firstHint (hintPriorityList (gameState e))) \<and>
     (\<exists>e'. requestHint e = Some e' \<and> gameState e' = gameState e \<and>
            currentHint e' = firstHint (hintPriorityList (gameState e)))"
proof -
  let ?g = "gameState e"
  have loop: "hintTableauLoop ?g [0..<length (tableau ?g)] ([], [], []) =
      Some (tier1 ?g [0..<length (tableau ?g)], tier2 ?g [0..<length (tableau ?g)],
            tier4 ?g [0..<length (tableau ?g)])"
    using hintTableauLoop_tiers[OF assms, of "[0..<length (tableau ?g)]" "[]" "[]" "[]"] by simp
  have c: "computeHintMove ?g = Some (firstHint (hintPriorityList ?g))"
    unfolding computeHintMove_def loop hintWaste_eq hintPriorityList_def firstHint_append
    by simp
  then show ?thesis by (cases "firstHint (hintPriorityList ?g)") (simp_all add: requestHint_def)
qed

lemmas hint_defs =
  hintPriorityList_def tier1_def tier2_def tier4_def wasteHint_def foundationHint_def
  tableauHint_def topFaceUpCard_def wouldReveal_def canMoveToTableau_def
  canMoveToFoundation_def nth_opt_def firstHint_def hintShape_def

lemmas engineB_simps = positionB_def positionC_def newEngine_def mkCard_def

text \<open>
  Four positions: in the first a tableau move reveals a card (tier 1); in the second no
  move reveals a card or reaches a foundation, and the waste move (tier 3) comes before
  the tableau move of column 1 (tier 4); in the third the ace of column 2 goes to its
  foundation (tier 2) before either; the empty board has no hint.
\<close>

theorem computeHintMove_priority_witness:
  "hintShape (gameState engineA) \<and>
   computeHintMove (gameState engineA) =
     Some (Some \<lparr>htype = TableauToTableau, hfrom = FromTableau 1 (0, 6), hto = ToTableau 2,
                 willFlip = True\<rparr>) \<and>
   (\<exists>e'. requestHint engineA = Some e' \<and> gameState e' = gameState engineA) \<and>
   hintShape (gameState ((newEngine None)\<lparr>gameState := positionB\<rparr>)) \<and>
   computeHintMove (gameState ((newEngine None)\<lparr>gameState := positionB\<rparr>)) =
     Some (Some \<lparr>htype = WasteToTableau, hfrom = FromWaste (1, 7), hto = ToTableau 0,
                 willFlip = False\<rparr>) \<and>
   tier4 positionB [0..<7] =
     [\<lparr>htype = TableauToTableau, hfrom = FromTableau 1 (0, 7), hto = ToTableau 0,
       willFlip = False\<rparr>] \<and>
   hintShape (gameState ((newEngine None)\<lparr>gameState := positionC\<rparr>)) \<and>
   computeHintMove (gameState ((newEngine None)\<lparr>gameState := positionC\<rparr>)) =
     Some (Some \<lparr>htype = TableauToFoundation, hfrom = FromTableau 2 (2, 1), hto = ToFoundation 2,
                 willFlip = False\<rparr>) \<and>
   hintShape (gameState (newEngine None)) \<and>
   computeHintMove (gameState (newEngine None)) = Some None"
proof -
  let ?eB = "(newEngine None)\<lparr>gameState := positionB\<rparr>"
  let ?eC = "(newEngine None)\<lparr>gameState := positionC\<rparr>"
  have u: "[0..<7] = [0, 1, 2, 3, 4, 5, 6]" by (simp add: upt_rec)
  have hA: "hintShape (gameState engineA)" by (simp add: engineA_simps hintShape_def)
  have hB: "hintShape (gameState ?eB)" by (simp add: engineB_simps hintShape_def)
  have hC: "hintShape (gameState ?eC)" by (simp add: engineB_simps hintShape_def)
  have hE: "hintShape (gameState (newEngine None))"
    by (simp add: newEngine_def emptyGameState_def hintShape_def)
  have fE: "firstHint (hintPriorityList (gameState (newEngine None))) = None"
    by (simp add: newEngine_def emptyGameState_def hint_defs u)
  have fA: "firstHint (hintPriorityList (gameState engineA)) =
      Some \<lparr>htype = TableauToTableau, hfrom = FromTableau 1 (0, 6), hto = ToTableau 2,
                 willFlip = True\<rparr>"
    by (simp add: engineA_simps hint_defs u)
  have fB: "firstHint (hintPriorityList (gameState ?eB)) =
      Some \<lparr>htype = WasteToTableau, hfrom = FromWaste (1, 7), hto = ToTableau 0,
                 willFlip = False\<rparr>"
    by (simp add: engineB_simps hint_defs u)
  have t4: "tier4 positionB [0..<7] =
     [\<lparr>htype = TableauToTableau, hfrom = FromTableau 1 (0, 7), hto = ToTableau 0,
       willFlip = False\<rparr>]"
    by (simp add: engineB_simps hint_defs u)
  have fC: "firstHint (hintPriorityList (gameState ?eC)) =
      Some \<lparr>htype = TableauToFoundation, hfrom = FromTableau 2 (2, 1), hto = ToFoundation 2,
                 willFlip = False\<rparr>"
    by (simp add: engineB_simps hint_defs u)
  show ?thesis
    using hA hB hC hE fA fB fC fE t4
      computeHintMove_priority[OF hA] computeHintMove_priority[OF hB]
      computeHintMove_priority[OF hC] computeHintMove_priority[OF hE]
    by auto
qed
section \<open>One deck\<close>

lemma faceDown_update [simp]: "faceDown (c\<lparr>faceUp := b\<rparr>) = faceDown c"
  by (simp add: faceDown_def)

lemma cardsIn_simps [simp]:
  "cardsIn [] = {#}"
  "cardsIn (xs @ ys) = cardsIn xs + cardsIn ys"
  "cardsIn (rev xs) = cardsIn xs"
  "cardsIn (map (\<lambda>c. c\<lparr>faceUp := b\<rparr>) xs) = cardsIn xs"
  "cardsIn [c\<lparr>faceUp := b\<rparr>] = cardsIn [c]"
  by (simp_all add: cardsIn_def comp_def)

lemma cardsIn_take_drop: "cardsIn (take n xs) + cardsIn (drop n xs) = cardsIn xs"
  by (metis append_take_drop_id cardsIn_simps(2))

lemma cardsIn_butlast_last: "xs \<noteq> [] \<Longrightarrow> cardsIn (butlast xs) + cardsIn [last xs] = cardsIn xs"
  by (metis append_butlast_last_id cardsIn_simps(2))

lemma cardsIn_flipLast [simp]: "cardsIn (flipLast xs) = cardsIn xs"
  by (simp add: cardsIn_def faceDown_flipLast)

lemma cardsInPiles_update:
  "k < length xss \<Longrightarrow>
   cardsInPiles (xss[k := ys]) + cardsIn (xss ! k) = cardsInPiles xss + cardsIn ys"
proof (induction xss arbitrary: k)
  case Nil
  then show ?case by simp
next
  case (Cons xs xss)
  show ?case
  proof (cases k)
    case 0
    then show ?thesis by (simp add: cardsInPiles_def)
  next
    case (Suc j)
    then have "j < length xss" using Cons.prems by simp
    from Cons.IH[OF this] Suc show ?thesis
      by (simp add: cardsInPiles_def add.assoc)
  qed
qed

lemma cardsInPiles_append:
  assumes "k < length xss"
  shows "cardsInPiles (xss[k := xss ! k @ ys]) = cardsInPiles xss + cardsIn ys"
proof -
  have "cardsInPiles (xss[k := xss ! k @ ys]) + cardsIn (xss ! k) =
        cardsInPiles xss + cardsIn ys + cardsIn (xss ! k)"
    using cardsInPiles_update[OF assms, of "xss ! k @ ys"] by (simp add: add.assoc add.commute)
  then show ?thesis by simp
qed

lemma cardsOf_allCards: "mset (map faceDown (allCards g)) = cardsOf g"
  by (simp add: cardsOf_def allCards_def cardsInPiles_def cardsIn_def)

lemma oneDeck_cardsOf:
  assumes "cardsOf g' = cardsOf g" and "oneDeck g"
  shows "oneDeck g'"
proof -
  have m: "mset (map faceDown (allCards g')) = mset (map faceDown (allCards g))"
    using assms(1) by (simp only: cardsOf_allCards)
  then have "mset (map cid (map faceDown (allCards g'))) = mset (map cid (map faceDown (allCards g)))"
    by (metis mset_map)
  then have "mset (map cid (allCards g')) = mset (map cid (allCards g))"
    by (simp only: cid_faceDown)
  then have "distinct (map cid (allCards g')) = distinct (map cid (allCards g))"
    by (rule mset_eq_imp_distinct_iff)
  then show ?thesis using assms(2) m by (simp add: oneDeck_def)
qed


lemma cardsInPiles_flipLast:
  assumes "k < length xss"
  shows "cardsInPiles (xss[k := flipLast ys]) = cardsInPiles (xss[k := ys])"
proof -
  have "cardsInPiles (xss[k := flipLast ys]) + cardsIn (xss ! k) =
        cardsInPiles (xss[k := ys]) + cardsIn (xss ! k)"
    using cardsInPiles_update[OF assms, of "flipLast ys"] cardsInPiles_update[OF assms, of ys]
    by simp
  then show ?thesis by simp
qed

lemma cardsInPiles_take:
  assumes "k < length xss"
  shows "cardsInPiles (xss[k := take n (xss ! k)]) + cardsIn (drop n (xss ! k)) = cardsInPiles xss"
proof -
  have "cardsInPiles (xss[k := take n (xss ! k)]) + cardsIn (drop n (xss ! k)) + cardsIn (take n (xss ! k))
        = cardsInPiles (xss[k := take n (xss ! k)]) + cardsIn (xss ! k)"
    using cardsIn_take_drop[of n "xss ! k"] by (simp add: add.assoc add.commute)
  also have "\<dots> = cardsInPiles xss + cardsIn (take n (xss ! k))"
    by (rule cardsInPiles_update[OF assms])
  finally show ?thesis by simp
qed

lemma cardsInPiles_butlast:
  assumes "k < length xss" and "xss ! k \<noteq> []"
  shows "cardsInPiles (xss[k := butlast (xss ! k)]) + cardsIn [last (xss ! k)] = cardsInPiles xss"
proof -
  have "butlast (xss ! k) = take (length (xss ! k) - 1) (xss ! k)" by (rule butlast_conv_take)
  moreover have "[last (xss ! k)] = drop (length (xss ! k) - 1) (xss ! k)"
    using assms(2) by (metis append_butlast_last_id append_eq_conv_conj length_butlast)
  ultimately show ?thesis using cardsInPiles_take[OF assms(1), of "length (xss ! k) - 1"] by simp
qed

lemma cardsOf_fields [simp]:
  "cardsOf (g\<lparr>moveCount := m\<rparr>) = cardsOf g"
  "cardsOf (g\<lparr>score := sc\<rparr>) = cardsOf g"
  by (simp_all add: cardsOf_def)

lemma handleStockClick_cardsOf:
  assumes "handleStockClick e = Some (True, e')"
  shows "cardsOf (gameState e') = cardsOf (gameState e)"
proof (cases "stock (gameState e) = []")
  case False
  from handleStockClick_draw[OF False] assms
  have "gameState e' =
       (gameState e)\<lparr>
          stock := take (length (stock (gameState e)) - min 3 (length (stock (gameState e))))
                     (stock (gameState e)),
          waste := waste (gameState e) @
                     map (\<lambda>c. c\<lparr>faceUp := True\<rparr>)
                       (rev (drop (length (stock (gameState e)) - min 3 (length (stock (gameState e))))
                          (stock (gameState e)))),
          moveCount := moveCount (gameState e) + 1\<rparr>"
    by auto
  then show ?thesis
    using cardsIn_take_drop[of "length (stock (gameState e)) - min 3 (length (stock (gameState e)))"
        "stock (gameState e)"]
    by (simp add: cardsOf_def add.assoc add.left_commute)
next
  case True
  then have w: "waste (gameState e) \<noteq> []" using assms
    by (auto simp: handleStockClick_def split: if_splits)
  from handleStockClick_recycle[OF True w] assms
  have "gameState e' =
       (gameState e)\<lparr>
          waste := [],
          stock := map (\<lambda>c. c\<lparr>faceUp := False\<rparr>) (rev (waste (gameState e))),
          moveCount := moveCount (gameState e) + 1\<rparr>"
    by auto
  then show ?thesis using True by (simp add: cardsOf_def)
qed


lemma moveCardsToTableau_cardsOf:
  assumes at: "runOnTop loc cards (gameState e)"
    and mv: "moveCardsToTableau loc col (OwnArray cards) e = Some (True, e')"
  shows "cardsOf (gameState e') = cardsOf (gameState e)"
proof -
  let ?g = "gameState e"
  have legal: "canMoveToTableau ?g cards col = Some True"
    using mv by (auto simp: moveCardsToTableau_own split: option.splits if_splits)
  then have col: "col < length (tableau ?g)" using canMoveToTableau_SomeD by blast
  show ?thesis
  proof (cases loc)
    case Waste
    then have w: "waste ?g \<noteq> []" and c: "cards = [last (waste ?g)]" using at by simp_all
    have "gameState e' =
        ?g\<lparr>waste := butlast (waste ?g), score := score ?g + 5,
            tableau := (tableau ?g)[col := tableau ?g ! col @ cards],
            moveCount := moveCount ?g + 1\<rparr>"
      using mv legal Waste w c col
      by (auto simp: moveCardsToTableau_own removeRunFromSource_def nth_opt_def Let_def)
    then show ?thesis
      using cardsInPiles_append[OF col, of cards] cardsIn_butlast_last[OF w] c
      by (simp add: cardsOf_def add.assoc add.left_commute)
  next
    case (FoundationLoc k)
    then have k: "k < length (foundations ?g)" and f: "foundations ?g ! k \<noteq> []"
      and c: "cards = [last (foundations ?g ! k)]" using at by simp_all
    have "gameState e' =
        ?g\<lparr>foundations := (foundations ?g)[k := butlast (foundations ?g ! k)],
            score := score ?g - 15,
            tableau := (tableau ?g)[col := tableau ?g ! col @ cards],
            moveCount := moveCount ?g + 1\<rparr>"
      using mv legal FoundationLoc k f c col
      by (auto simp: moveCardsToTableau_own removeRunFromSource_def nth_opt_def Let_def)
    then show ?thesis
      using cardsInPiles_append[OF col, of cards] cardsInPiles_butlast[OF k f] c
      by (simp add: cardsOf_def add.assoc add.left_commute)
  next
    case (TableauLoc k)
    then have k: "k < length (tableau ?g)" and len: "length cards \<le> length (tableau ?g ! k)"
      and c: "drop (length (tableau ?g ! k) - length cards) (tableau ?g ! k) = cards"
      using at by simp_all
    let ?rest = "take (length (tableau ?g ! k) - length cards) (tableau ?g ! k)"
    let ?t1 = "(tableau ?g)[k := flipLast ?rest]"
    have t: "tableau (gameState e') = ?t1[col := ?t1 ! col @ cards]"
      and st: "stock (gameState e') = stock ?g" and wa: "waste (gameState e') = waste ?g"
      and fo: "foundations (gameState e') = foundations ?g"
      using mv legal TableauLoc k col
      by (auto simp: moveCardsToTableau_own removeRunFromSource_def nth_opt_def Let_def
          gameState_revealTop)
    have col1: "col < length ?t1" using col by simp
    have "cardsInPiles (?t1[col := ?t1 ! col @ cards]) = cardsInPiles ?t1 + cardsIn cards"
      by (rule cardsInPiles_append[OF col1])
    also have "cardsInPiles ?t1 = cardsInPiles ((tableau ?g)[k := ?rest])"
      by (rule cardsInPiles_flipLast[OF k])
    also have "cardsInPiles ((tableau ?g)[k := ?rest]) + cardsIn cards = cardsInPiles (tableau ?g)"
      using cardsInPiles_take[OF k, of "length (tableau ?g ! k) - length cards"] c by simp
    finally show ?thesis using t st wa fo by (simp add: cardsOf_def)
  next
    case OtherLoc
    then show ?thesis using at by simp
  qed
qed

lemma moveCardToFoundation_cardsOf:
  assumes at: "cardsAtSource (MoveCardToFoundation loc i c) (gameState e)"
    and mv: "moveCardToFoundation loc i c e = Some (True, e')"
  shows "cardsOf (gameState e') = cardsOf (gameState e)"
proof -
  let ?g = "gameState e"
  have legal: "canMoveToFoundation ?g c = Some i"
    using mv by (auto simp: moveCardToFoundation_def split: option.splits if_splits)
  show ?thesis
  proof (cases loc)
    case Waste
    then have w: "waste ?g \<noteq> []" and c: "last (waste ?g) = c" using at by simp_all
    from mv legal Waste w obtain f where
      i: "nth_int (foundations ?g) i = Some f" and
      g': "gameState e' =
        ?g\<lparr>waste := butlast (waste ?g),
            foundations := (foundations ?g)[nat i := f @ [c]],
            score := score ?g + 10,
            moveCount := moveCount ?g + 1\<rparr>"
      by (auto simp: moveCardToFoundation_def removeCardFromSource_def Let_def
          split: option.splits)
    from i have ni: "nat i < length (foundations ?g)" and f: "f = foundations ?g ! nat i"
      by (auto simp: nth_int_def nth_opt_def split: if_splits)
    show ?thesis
      using g' cardsInPiles_append[OF ni, of "[c]"] cardsIn_butlast_last[OF w] c f
      by (simp add: cardsOf_def add.assoc add.left_commute)
  next
    case (TableauLoc k)
    then have k: "k < length (tableau ?g)" and ne: "tableau ?g ! k \<noteq> []"
      and c: "last (tableau ?g ! k) = c" using at by simp_all
    from mv legal TableauLoc k ne obtain f where
      i: "nth_int (foundations ?g) i = Some f" and
      t: "tableau (gameState e') = (tableau ?g)[k := flipLast (butlast (tableau ?g ! k))]" and
      fo: "foundations (gameState e') = (foundations ?g)[nat i := f @ [c]]" and
      st: "stock (gameState e') = stock ?g" and wa: "waste (gameState e') = waste ?g"
      by (auto simp: moveCardToFoundation_def removeCardFromSource_def Let_def nth_opt_def
          gameState_revealTop split: option.splits)
    from i have ni: "nat i < length (foundations ?g)" and f: "f = foundations ?g ! nat i"
      by (auto simp: nth_int_def nth_opt_def split: if_splits)
    have "cardsInPiles (tableau (gameState e')) + cardsIn [c] = cardsInPiles (tableau ?g)"
      using cardsInPiles_flipLast[OF k, of "butlast (tableau ?g ! k)"]
        cardsInPiles_butlast[OF k ne] c t by simp
    moreover have "cardsInPiles (foundations (gameState e')) =
        cardsInPiles (foundations ?g) + cardsIn [c]"
      using cardsInPiles_append[OF ni, of "[c]"] fo f by simp
    ultimately show ?thesis using st wa
      by (simp add: cardsOf_def ac_simps)
  next
    case (FoundationLoc k)
    then show ?thesis using at by simp
  next
    case OtherLoc
    then show ?thesis using at by simp
  qed
qed


lemma foundationToTableauLoop_state:
  "foundationToTableauLoop cols k f b e = Some (True, e') \<Longrightarrow>
   \<exists>col < length (tableau (gameState e)).
     canMoveToTableau (gameState e) [last f] col = Some True \<and>
     gameState e' =
       (gameState e)\<lparr>foundations := (foundations (gameState e))[k := butlast f],
                      tableau := (tableau (gameState e))[col := tableau (gameState e) ! col @ [last f]],
                      score := score (gameState e) - 15,
                      moveCount := moveCount (gameState e) + 1\<rparr>"
proof (induction cols)
  case Nil
  then show ?case by simp
next
  case (Cons col cols)
  show ?case
  proof (cases "canMoveToTableau (gameState e) [last f] col = Some True")
    case True
    then have "col < length (tableau (gameState e))" using canMoveToTableau_SomeD by blast
    then show ?thesis using Cons.prems True
      by (auto simp: Let_def nth_opt_def intro!: exI[of _ col])
  next
    case False
    then have "foundationToTableauLoop cols k f b e = Some (True, e')"
      using Cons.prems by (auto simp: Let_def split: option.splits if_splits)
    then show ?thesis by (rule Cons.IH)
  qed
qed

lemma tryMoveFoundationToTableau_cardsOf:
  assumes "tryMoveFoundationToTableau k b e = Some (True, e')"
  shows "cardsOf (gameState e') = cardsOf (gameState e)"
proof -
  let ?g = "gameState e"
  from assms have k: "k < length (foundations ?g)" and f: "foundations ?g ! k \<noteq> []"
    and loop: "foundationToTableauLoop [0..<7] k (foundations ?g ! k) b e = Some (True, e')"
    by (auto simp: tryMoveFoundationToTableau_def nth_opt_def split: if_splits)
  from foundationToTableauLoop_state[OF loop] obtain col where
    col: "col < length (tableau ?g)" and
    g': "gameState e' =
       ?g\<lparr>foundations := (foundations ?g)[k := butlast (foundations ?g ! k)],
           tableau := (tableau ?g)[col := tableau ?g ! col @ [last (foundations ?g ! k)]],
           score := score ?g - 15,
           moveCount := moveCount ?g + 1\<rparr>"
    by blast
  show ?thesis
    using g' cardsInPiles_append[OF col, of "[last (foundations ?g ! k)]"]
      cardsInPiles_butlast[OF k f]
    by (simp add: cardsOf_def ac_simps)
qed

lemma perform_cardsOf:
  assumes "cardsAtSource call (gameState e)" and "perform call e = Some (True, e')"
  shows "cardsOf (gameState e') = cardsOf (gameState e)"
proof (cases call)
  case DrawFromStock
  then show ?thesis using assms(2) by (simp add: handleStockClick_cardsOf)
next
  case (MoveCardsToTableau loc col cards)
  then show ?thesis using assms
    by (cases cards) (simp_all add: moveCardsToTableau_cardsOf)
next
  case (MoveCardToFoundation loc i c)
  then show ?thesis using assms by (simp add: moveCardToFoundation_cardsOf)
next
  case (TryMoveFoundationToTableau k b)
  then show ?thesis using assms(2) by (simp add: tryMoveFoundationToTableau_cardsOf)
qed

lemma perform_oneDeck:
  assumes "oneDeck (gameState e)"
    and "cardsAtSource call (gameState e)"
    and "perform call e = Some (True, e')"
  shows "oneDeck (gameState e')"
  using perform_cardsOf[OF assms(2,3)] assms(1) by (rule oneDeck_cardsOf)






text \<open>
  The array matters as well.  With the queen of hearts and the jack of spades in column
  1 and the king of spades in column 0, the call that names column 1 as source and hands
  over that column's own array succeeds: \<^verbatim>\<open>splice\<close> empties the array, nothing is left
  to push, and the two cards are in no pile.
\<close>

lemma source_array_as_run_loses_cards:
  "take 2 (tableau (gameState reshuffledEngine)) =
     [[mkCard 3 13 True], [mkCard 0 12 False, mkCard 3 11 True]] \<and>
   length (allCards (gameState reshuffledEngine)) = 52 \<and>
   map_option fst (moveCardsToTableau (TableauLoc 1) 0 (TableauPile 1) reshuffledEngine)
     = Some True \<and>
   map_option (take 2 \<circ> tableau \<circ> gameState \<circ> snd)
     (moveCardsToTableau (TableauLoc 1) 0 (TableauPile 1) reshuffledEngine)
     = Some [[mkCard 3 13 True], []] \<and>
   map_option (length \<circ> allCards \<circ> gameState \<circ> snd)
     (moveCardsToTableau (TableauLoc 1) 0 (TableauPile 1) reshuffledEngine) = Some 50"
  by code_simp

text \<open>
  A drop can hand over such cards too.  \<^verbatim>\<open>attemptMove\<close> passes the first card of the
  dragged run to \<^verbatim>\<open>moveCardToFoundation\<close>, which pops the last card of the column.
  After the deal and the two moves of \<open>acesDragged\<close> the drag holds the two of hearts
  and the ace of spades; dropped on the hearts foundation, the two goes there and stays
  in column 1, and the ace of spades is in no pile.
\<close>

lemma dropped_run_duplicates_card:
  "map_option dragData acesDragged =
     Some (Some (TableauLoc 1, [mkCard 0 2 True, mkCard 3 1 True])) \<and>
   map_option (noCardTwice \<circ> gameState) acesDragged = Some True \<and>
   map_option (length \<circ> allCards \<circ> gameState) acesDragged = Some 52 \<and>
   Option.bind acesDragged
     (map_option fst \<circ>
      attemptMove (TableauLoc 1) (FoundationLoc 0) (OwnArray [mkCard 0 2 True, mkCard 3 1 True]))
     = Some True \<and>
   Option.bind acesDragged
     (map_option (noCardTwice \<circ> gameState \<circ> snd) \<circ>
      attemptMove (TableauLoc 1) (FoundationLoc 0) (OwnArray [mkCard 0 2 True, mkCard 3 1 True]))
     = Some False \<and>
   Option.bind acesDragged
     (map_option (hd \<circ> foundations \<circ> gameState \<circ> snd) \<circ>
      attemptMove (TableauLoc 1) (FoundationLoc 0) (OwnArray [mkCard 0 2 True, mkCard 3 1 True]))
     = Some [mkCard 0 1 True, mkCard 0 2 True] \<and>
   Option.bind acesDragged
     (map_option (hd \<circ> tl \<circ> tableau \<circ> gameState \<circ> snd) \<circ>
      attemptMove (TableauLoc 1) (FoundationLoc 0) (OwnArray [mkCard 0 2 True, mkCard 3 1 True]))
     = Some [mkCard 3 12 False, mkCard 0 2 True]"
  by code_simp


section \<open>Face-up cards at the end of a column\<close>

lemma faceUpSuffix_all: "list_all faceUp cs \<Longrightarrow> faceUpSuffix cs"
  by (induction cs) auto

lemma faceUpSuffix_append:
  "faceUpSuffix xs \<Longrightarrow> list_all faceUp ys \<Longrightarrow> faceUpSuffix (xs @ ys)"
  by (induction xs) (auto simp: faceUpSuffix_all)

lemma faceUpSuffix_take: "faceUpSuffix xs \<Longrightarrow> faceUpSuffix (take n xs)"
proof (induction xs arbitrary: n)
  case Nil
  then show ?case by simp
next
  case (Cons c cs)
  show ?case
  proof (cases n)
    case 0
    then show ?thesis by simp
  next
    case (Suc m)
    show ?thesis
    proof (cases "faceUp c")
      case True
      then have "list_all faceUp cs" using Cons.prems by simp
      then have "list_all faceUp (take m cs)" by (auto simp: list_all_iff dest: in_set_takeD)
      then show ?thesis using True Suc by simp
    next
      case False
      then show ?thesis using Cons Suc by simp
    qed
  qed
qed

lemma faceUpSuffix_butlast: "faceUpSuffix xs \<Longrightarrow> faceUpSuffix (butlast xs)"
  by (simp add: butlast_conv_take faceUpSuffix_take)

lemma faceUpSuffix_flipLast: "faceUpSuffix xs \<Longrightarrow> faceUpSuffix (flipLast xs)"
  by (simp add: flipLast_def faceUpSuffix_append faceUpSuffix_butlast)

lemma faceUpSuffix_dealt: "map faceUp xs = replicate n False @ [True] \<Longrightarrow> faceUpSuffix xs"
proof (induction n arbitrary: xs)
  case 0
  then show ?case by (cases xs) auto
next
  case (Suc n)
  then obtain c cs where xs: "xs = c # cs" by (cases xs) auto
  then show ?case using Suc by auto
qed

lemma list_all_update:
  "list_all P xs \<Longrightarrow> P y \<Longrightarrow> list_all P (xs[k := y])"
  by (metis (no_types, lifting) list_all_iff insert_iff set_update_subset_insert subsetD)

lemma list_all_butlast: "list_all P xs \<Longrightarrow> list_all P (butlast xs)"
  by (auto simp: list_all_iff dest: in_set_butlastD)

lemma list_all_nth: "list_all P xs \<Longrightarrow> k < length xs \<Longrightarrow> P (xs ! k)"
  by (simp add: list_all_length)


lemma faceUpInv_moveCount [simp]: "faceUpInv (g\<lparr>moveCount := m\<rparr>) = faceUpInv g"
  by (simp add: faceUpInv_def tableauOrdered_def openPilesFaceUp_def)

lemma faceUpInv_score [simp]: "faceUpInv (g\<lparr>score := m\<rparr>) = faceUpInv g"
  by (simp add: faceUpInv_def tableauOrdered_def openPilesFaceUp_def)

lemma faceUpInv_stock [simp]: "faceUpInv (g\<lparr>stock := m\<rparr>) = faceUpInv g"
  by (simp add: faceUpInv_def tableauOrdered_def openPilesFaceUp_def)

lemma faceUpInv_waste:
  "faceUpInv g \<Longrightarrow> list_all faceUp w \<Longrightarrow> faceUpInv (g\<lparr>waste := w\<rparr>)"
  by (simp add: faceUpInv_def tableauOrdered_def openPilesFaceUp_def)

lemma faceUpInv_foundations:
  "faceUpInv g \<Longrightarrow> list_all faceUp f \<Longrightarrow> faceUpInv (g\<lparr>foundations := (foundations g)[k := f]\<rparr>)"
  by (simp add: faceUpInv_def tableauOrdered_def openPilesFaceUp_def list_all_update)

lemma faceUpInv_tableau:
  "faceUpInv g \<Longrightarrow> faceUpSuffix column \<Longrightarrow> faceUpInv (g\<lparr>tableau := (tableau g)[k := column]\<rparr>)"
  by (simp add: faceUpInv_def tableauOrdered_def openPilesFaceUp_def list_all_update)

lemma faceUpInv_wasteD: "faceUpInv g \<Longrightarrow> list_all faceUp (waste g)"
  by (simp add: faceUpInv_def openPilesFaceUp_def)

lemma faceUpInv_foundationD:
  "faceUpInv g \<Longrightarrow> k < length (foundations g) \<Longrightarrow> list_all faceUp (foundations g ! k)"
  by (simp add: faceUpInv_def openPilesFaceUp_def list_all_nth)

lemma faceUpInv_tableauD:
  "faceUpInv g \<Longrightarrow> k < length (tableau g) \<Longrightarrow> faceUpSuffix (tableau g ! k)"
  by (simp add: faceUpInv_def tableauOrdered_def list_all_nth)

lemma revealTop_inv:
  assumes "faceUpInv (gameState e)" and "faceUpSuffix column"
  shows "faceUpInv (gameState (revealTop k column e))"
  using faceUpInv_tableau[OF assms(1) faceUpSuffix_flipLast[OF assms(2)], of k]
  by (simp add: gameState_revealTop)

lemma removeRunFromSource_inv:
  assumes "faceUpInv (gameState e)" and "removeRunFromSource loc n e = Some e2"
  shows "faceUpInv (gameState e2)"
proof (cases loc)
  case Waste
  then show ?thesis using assms
    by (auto simp: removeRunFromSource_def Let_def split: if_splits
        intro!: faceUpInv_waste list_all_butlast faceUpInv_wasteD)
next
  case (FoundationLoc k)
  then show ?thesis using assms
    by (auto simp: removeRunFromSource_def Let_def nth_opt_def split: if_splits
        intro!: faceUpInv_foundations list_all_butlast faceUpInv_foundationD)
next
  case (TableauLoc k)
  then show ?thesis using assms
    by (auto simp: removeRunFromSource_def Let_def nth_opt_def split: if_splits
        intro!: revealTop_inv faceUpSuffix_take faceUpInv_tableauD)
next
  case OtherLoc
  then show ?thesis using assms by (simp add: removeRunFromSource_def)
qed

lemma removeCardFromSource_inv:
  assumes "faceUpInv (gameState e)" and "removeCardFromSource loc e = Some e2"
  shows "faceUpInv (gameState e2)"
proof (cases loc)
  case Waste
  then show ?thesis using assms
    by (auto simp: removeCardFromSource_def Let_def split: if_splits
        intro!: faceUpInv_waste list_all_butlast faceUpInv_wasteD)
next
  case (FoundationLoc k)
  then show ?thesis using assms by (simp add: removeCardFromSource_def)
next
  case (TableauLoc k)
  then show ?thesis using assms
    by (auto simp: removeCardFromSource_def Let_def nth_opt_def split: if_splits
        intro!: revealTop_inv faceUpSuffix_butlast faceUpInv_tableauD)
next
  case OtherLoc
  then show ?thesis using assms by (simp add: removeCardFromSource_def)
qed


lemma list_all_faceUp_map: "list_all faceUp (map (\<lambda>c. c\<lparr>faceUp := True\<rparr>) xs)"
  by (simp add: list_all_iff)

lemma handleStockClick_inv:
  assumes "faceUpInv (gameState e)" and "handleStockClick e = Some (True, e')"
  shows "faceUpInv (gameState e')"
proof (cases "stock (gameState e) = []")
  case False
  from handleStockClick_draw[OF False] assms(2)
  obtain st ws where "gameState e' =
       (gameState e)\<lparr>stock := st,
          waste := waste (gameState e) @ map (\<lambda>c. c\<lparr>faceUp := True\<rparr>) ws,
          moveCount := moveCount (gameState e) + 1\<rparr>"
    by auto
  moreover have "list_all faceUp (waste (gameState e) @ map (\<lambda>c. c\<lparr>faceUp := True\<rparr>) ws)"
    using faceUpInv_wasteD[OF assms(1)] list_all_faceUp_map[of ws] by simp
  ultimately show ?thesis using assms(1)
    by (simp add: faceUpInv_def tableauOrdered_def openPilesFaceUp_def)
next
  case True
  then have w: "waste (gameState e) \<noteq> []" using assms(2)
    by (auto simp: handleStockClick_def split: if_splits)
  from handleStockClick_recycle[OF True w] assms(2)
  obtain st where "gameState e' =
       (gameState e)\<lparr>waste := [], stock := st, moveCount := moveCount (gameState e) + 1\<rparr>"
    by auto
  then show ?thesis using assms(1)
    by (simp add: faceUpInv_def tableauOrdered_def openPilesFaceUp_def)
qed

lemma moveCardsToTableau_inv:
  assumes inv: "faceUpInv (gameState e)" and up: "list_all faceUp cards"
    and mv: "moveCardsToTableau loc col (OwnArray cards) e = Some (True, e')"
  shows "faceUpInv (gameState e')"
proof -
  from mv obtain e2 where
    e2: "removeRunFromSource loc (length cards) (captureUndoSnapshot e) = Some e2" and
    col: "col < length (tableau (gameState e2))" and
    g': "gameState e' =
      (gameState e2)\<lparr>tableau := (tableau (gameState e2))[col := tableau (gameState e2) ! col @ cards],
                      moveCount := moveCount (gameState e2) + 1\<rparr>"
    by (auto simp: moveCardsToTableau_own nth_opt_def split: option.splits if_splits)
  have inv2: "faceUpInv (gameState e2)"
    using removeRunFromSource_inv[OF _ e2] inv by simp
  have "faceUpSuffix (tableau (gameState e2) ! col @ cards)"
    using faceUpInv_tableauD[OF inv2 col] up by (rule faceUpSuffix_append)
  from faceUpInv_tableau[OF inv2 this, of col] g' show ?thesis by simp
qed

lemma moveCardToFoundation_inv:
  assumes inv: "faceUpInv (gameState e)" and up: "faceUp c"
    and mv: "moveCardToFoundation loc i c e = Some (True, e')"
  shows "faceUpInv (gameState e')"
proof -
  from mv obtain e2 f where
    e2: "removeCardFromSource loc (captureUndoSnapshot e) = Some e2" and
    f: "nth_int (foundations (gameState e2)) i = Some f" and
    g': "gameState e' =
      (gameState e2)\<lparr>foundations := (foundations (gameState e2))[nat i := f @ [c]],
                      score := score (gameState e2) + 10,
                      moveCount := moveCount (gameState e2) + 1\<rparr>"
    by (auto simp: moveCardToFoundation_def split: option.splits if_splits)
  have inv2: "faceUpInv (gameState e2)"
    using removeCardFromSource_inv[OF _ e2] inv by simp
  from f have ni: "nat i < length (foundations (gameState e2))"
    and fe: "f = foundations (gameState e2) ! nat i"
    by (auto simp: nth_int_def nth_opt_def split: if_splits)
  have "list_all faceUp (f @ [c])"
    using faceUpInv_foundationD[OF inv2 ni] fe up by simp
  from faceUpInv_foundations[OF inv2 this, of "nat i"] g' show ?thesis by simp
qed

lemma tryMoveFoundationToTableau_inv:
  assumes inv: "faceUpInv (gameState e)"
    and mv: "tryMoveFoundationToTableau k b e = Some (True, e')"
  shows "faceUpInv (gameState e')"
proof -
  let ?g = "gameState e"
  from mv have k: "k < length (foundations ?g)" and f: "foundations ?g ! k \<noteq> []"
    and loop: "foundationToTableauLoop [0..<7] k (foundations ?g ! k) b e = Some (True, e')"
    by (auto simp: tryMoveFoundationToTableau_def nth_opt_def split: if_splits)
  from foundationToTableauLoop_state[OF loop] obtain col where
    col: "col < length (tableau ?g)" and
    g': "gameState e' =
       ?g\<lparr>foundations := (foundations ?g)[k := butlast (foundations ?g ! k)],
           tableau := (tableau ?g)[col := tableau ?g ! col @ [last (foundations ?g ! k)]],
           score := score ?g - 15,
           moveCount := moveCount ?g + 1\<rparr>"
    by blast
  have fk: "list_all faceUp (foundations ?g ! k)" by (rule faceUpInv_foundationD[OF inv k])
  then have "faceUp (last (foundations ?g ! k))" using f by (simp add: list_all_iff)
  then have c: "faceUpSuffix (tableau ?g ! col @ [last (foundations ?g ! k)])"
    using faceUpInv_tableauD[OF inv col] by (simp add: faceUpSuffix_append)
  have i1: "faceUpInv (?g\<lparr>foundations := (foundations ?g)[k := butlast (foundations ?g ! k)]\<rparr>)"
    using faceUpInv_foundations[OF inv list_all_butlast[OF fk]] .
  from faceUpInv_tableau[OF i1 c, of col] g' show ?thesis by simp
qed

lemma perform_inv:
  assumes "faceUpInv (gameState e)" and "faceUpCall call" and "perform call e = Some (True, e')"
  shows "faceUpInv (gameState e')"
proof (cases call)
  case DrawFromStock
  then show ?thesis using assms by (auto intro: handleStockClick_inv)
next
  case (MoveCardsToTableau loc col cards)
  then show ?thesis using assms
    by (cases cards) (auto intro: moveCardsToTableau_inv)
next
  case (MoveCardToFoundation loc i c)
  then show ?thesis using assms by (auto intro: moveCardToFoundation_inv)
next
  case (TryMoveFoundationToTableau k b)
  then show ?thesis using assms by (auto intro: tryMoveFoundationToTableau_inv)
qed


lemma startNewDeal_undoManager:
  "startNewDeal rnd e = Some e' \<Longrightarrow> undoManager e' = map_option reset (undoManager e)"
  by (auto simp: startNewDeal_def Let_def split: option.splits)

lemma startNewDeal_playInv:
  assumes "startNewDeal rnd e = Some e'"
  shows "playInv e'"
proof -
  from startNewDeal_props[of rnd e] assms
  have w: "waste (gameState e') = []" and f: "foundations (gameState e') = [[], [], [], []]"
    and t: "map (map faceUp) (tableau (gameState e')) =
       [[True],
        [False, True],
        [False, False, True],
        [False, False, False, True],
        [False, False, False, False, True],
        [False, False, False, False, False, True],
        [False, False, False, False, False, False, True]]"
    and d: "oneDeck (gameState e')"
    by auto
  from t obtain c0 c1 c2 c3 c4 c5 c6 where
    tab: "tableau (gameState e') = [c0, c1, c2, c3, c4, c5, c6]" and
    m: "map faceUp c0 = [True]" "map faceUp c1 = [False, True]"
       "map faceUp c2 = [False, False, True]" "map faceUp c3 = [False, False, False, True]"
       "map faceUp c4 = [False, False, False, False, True]"
       "map faceUp c5 = [False, False, False, False, False, True]"
       "map faceUp c6 = [False, False, False, False, False, False, True]"
    by (auto simp: map_eq_Cons_conv)
  have "faceUpSuffix c0" using faceUpSuffix_dealt[of c0 0] m by simp
  moreover have "faceUpSuffix c1" using faceUpSuffix_dealt[of c1 1] m by simp
  moreover have "faceUpSuffix c2" using faceUpSuffix_dealt[of c2 2] m by (simp add: numeral_eq_Suc)
  moreover have "faceUpSuffix c3" using faceUpSuffix_dealt[of c3 3] m by (simp add: numeral_eq_Suc)
  moreover have "faceUpSuffix c4" using faceUpSuffix_dealt[of c4 4] m by (simp add: numeral_eq_Suc)
  moreover have "faceUpSuffix c5" using faceUpSuffix_dealt[of c5 5] m by (simp add: numeral_eq_Suc)
  moreover have "faceUpSuffix c6" using faceUpSuffix_dealt[of c6 6] m by (simp add: numeral_eq_Suc)
  ultimately have "faceUpInv (gameState e')"
    using tab w f by (simp add: faceUpInv_def tableauOrdered_def openPilesFaceUp_def)
  moreover have "undoManager e' = map_option reset (undoManager e)"
    using assms by (rule startNewDeal_undoManager)
  ultimately show ?thesis using d
    by (cases "undoManager e") (simp_all add: playInv_def reset_def)
qed

lemma history_pushSnapshot_all:
  assumes "list_all P (history um)" and "P s"
  shows "list_all P (history (pushSnapshot s um))"
proof -
  have "list_all P (history um @ [s])" using assms by simp
  then have "list_all P (drop n (history um @ [s]))" for n
    by (auto simp: list_all_iff dest: in_set_dropD)
  then show ?thesis using assms
    by (simp add: pushSnapshot_def cloneState_def Let_def del: drop_append)
qed

lemma perform_playInv:
  assumes "playInv e" and "cardsAtSource call (gameState e)" and "faceUpCall call"
    and "perform call e = Some (True, e')"
  shows "playInv e'"
proof -
  have g: "faceUpInv (gameState e)" and d: "oneDeck (gameState e)"
    using assms(1) by (simp_all add: playInv_def)
  have g': "faceUpInv (gameState e')" using perform_inv[OF g assms(3,4)] .
  have d': "oneDeck (gameState e')" using perform_oneDeck[OF d assms(2,4)] .
  have u: "undoManager e' = undoManager (captureUndoSnapshot e)"
    using assms(4) by (rule perform_undoManager)
  show ?thesis
  proof (cases "undoManager e")
    case None
    then show ?thesis using g' d' u by (simp add: playInv_def captureUndoSnapshot_def)
  next
    case (Some um)
    then have "list_all (\<lambda>s. faceUpInv s \<and> oneDeck s) (history um)"
      using assms(1) by (simp add: playInv_def)
    moreover have "faceUpInv (gameState e) \<and> oneDeck (gameState e)" using g d by simp
    ultimately have "list_all (\<lambda>s. faceUpInv s \<and> oneDeck s)
        (history (pushSnapshot (gameState e) um))"
      by (rule history_pushSnapshot_all)
    then show ?thesis using Some g' d' u
      by (simp add: playInv_def captureUndoSnapshot_def)
  qed
qed

lemma undoLastMove_playInv:
  assumes "playInv e" and "undoLastMove e = (b, e')"
  shows "playInv e'"
proof (cases "undoManager e")
  case None
  then show ?thesis using assms by (simp add: undoLastMove_def)
next
  case (Some um)
  then have h: "list_all (\<lambda>s. faceUpInv s \<and> oneDeck s) (history um)"
    and g: "faceUpInv (gameState e)" "oneDeck (gameState e)"
    using assms(1) by (simp_all add: playInv_def)
  show ?thesis
  proof (cases "history um = []")
    case True
    then show ?thesis using assms Some by (auto simp: undoLastMove_def canUndo_def)
  next
    case False
    then have "faceUpInv (last (history um)) \<and> oneDeck (last (history um))"
      using h by (simp add: list_all_iff)
    moreover have "list_all (\<lambda>s. faceUpInv s \<and> oneDeck s) (butlast (history um))"
      using h by (rule list_all_butlast)
    ultimately show ?thesis using assms(2) Some False
      by (auto simp: undoLastMove_def canUndo_def undo_def playInv_def)
  qed
qed

lemma transferPlay_playInv: "transferPlay e \<Longrightarrow> playInv e"
proof (induction rule: transferPlay.induct)
  case (deal rnd e e')
  then show ?case by (rule startNewDeal_playInv)
next
  case (move e call e')
  then show ?case by (auto intro: perform_playInv)
next
  case (undo e b e')
  then show ?case by (auto intro: undoLastMove_playInv)
qed

text \<open>
  Such play keeps one deck, each id once.  No card object then lies at two pile
  positions, so turning a card over in place, as the program does when it draws,
  recycles or reveals, changes the one position that the corresponding pile update
  changes here.
\<close>

lemma transferPlay_one_deck:
  assumes "transferPlay e"
  shows "oneDeck (gameState e) \<and> noCardTwice (gameState e)"
  using transferPlay_playInv[OF assms] by (simp add: playInv_def oneDeck_def noCardTwice_def)

text \<open>
  Claim C8, amended.  In every state reached from a deal through undo and through
  successful calls of the move engine whose card arguments are the face-up cards on top
  of the source they name, the face-up cards of each tableau column form a suffix of the
  column.
\<close>

theorem tableau_face_up_suffix:
  assumes "transferPlay e"
  shows "tableauOrdered (gameState e)"
  using transferPlay_playInv[OF assms] by (simp add: playInv_def faceUpInv_def)


text \<open>
  Claim C8 as stated fails.  After a deal, \<^verbatim>\<open>moveCardsToTableau\<close> moves the whole of
  column 1, the face-down queen of hearts and the jack of spades, onto the king of spades
  in column 0 and reports success: only the first card of a run and the top card of the
  destination are checked.  Column 0 then has a face-down card above a face-up one.
\<close>

theorem face_down_run_breaks_order:
  "tableauOrdered (gameState reshuffledEngine) \<and>
   map_option fst
     (moveCardsToTableau (TableauLoc 1) 0 (OwnArray [mkCard 0 12 False, mkCard 3 11 True])
        reshuffledEngine)
     = Some True \<and>
   map_option (tableauOrdered \<circ> gameState \<circ> snd)
     (moveCardsToTableau (TableauLoc 1) 0 (OwnArray [mkCard 0 12 False, mkCard 3 11 True])
        reshuffledEngine)
     = Some False \<and>
   map_option (hd \<circ> tableau \<circ> gameState \<circ> snd)
     (moveCardsToTableau (TableauLoc 1) 0 (OwnArray [mkCard 0 12 False, mkCard 3 11 True])
        reshuffledEngine)
     = Some [mkCard 3 13 True, mkCard 0 12 False, mkCard 3 11 True]"
  by code_simp

lemma startNewDeal_dealtEngine: "startNewDeal (\<lambda>i. i) (newEngine None) = Some dealtEngine"
  using startNewDeal_props[of "\<lambda>i. i" "newEngine None"] by (auto simp: dealtEngine_def)

theorem tableau_face_up_suffix_witness:
  "\<exists>e1. perform (MoveCardsToTableau (TableauLoc 6) 0 (OwnArray [mkCard 1 12 True])) dealtEngine
           = Some (True, e1) \<and>
        transferPlay e1 \<and> tableauOrdered (gameState e1) \<and>
        tableau (gameState e1) ! 6 =
          [mkCard 2 5 False, mkCard 2 4 False, mkCard 2 3 False, mkCard 2 2 False,
           mkCard 2 1 False, mkCard 1 13 True]"
proof -
  let ?call = "MoveCardsToTableau (TableauLoc 6) 0 (OwnArray [mkCard 1 12 True])"
  have "map_option fst (perform ?call dealtEngine) = Some True" by code_simp
  then obtain e1 where p: "perform ?call dealtEngine = Some (True, e1)"
    by (cases "perform ?call dealtEngine") auto
  have "map_option ((\<lambda>t. t ! 6) \<circ> tableau \<circ> gameState \<circ> snd) (perform ?call dealtEngine) =
        Some [mkCard 2 5 False, mkCard 2 4 False, mkCard 2 3 False, mkCard 2 2 False,
           mkCard 2 1 False, mkCard 1 13 True]"
    by code_simp
  then have t: "tableau (gameState e1) ! 6 =
          [mkCard 2 5 False, mkCard 2 4 False, mkCard 2 3 False, mkCard 2 2 False,
           mkCard 2 1 False, mkCard 1 13 True]"
    using p by simp
  have d: "transferPlay dealtEngine" using startNewDeal_dealtEngine by (rule transferPlay.deal)
  have a: "cardsAtSource ?call (gameState dealtEngine)" by code_simp
  have c: "faceUpCall ?call" by (simp add: mkCard_def)
  have h: "transferPlay e1" using d a c p by (rule transferPlay.move)
  from tableau_face_up_suffix[OF h] h p t show ?thesis by blast
qed

end
